theory Spec2Isabelle
  imports Complex_Main
begin

section \<open>Common Python notions\<close>

text \<open>
  Python floats are modelled as exact reals, so that the theorems speak about the
  arithmetic the code writes down; the one exception is the threshold of adaptive.py,
  which is modelled as a double with its rounding.  Exceptions are values
  of the type \<open>error\<close>; a function that can raise returns \<open>error + 'a\<close>.
\<close>

datatype error = AttributeError string | IndexError | ZeroDivisionError

definition bind_e :: "error + 'a \<Rightarrow> ('a \<Rightarrow> error + 'b) \<Rightarrow> error + 'b" where
  "bind_e m f = (case m of Inl e \<Rightarrow> Inl e | Inr v \<Rightarrow> f v)"

text \<open>
  A naive \<open>datetime\<close> is a number of microseconds on the local time line.  The
  difference of two of them is a \<open>timedelta\<close>, which Python keeps normalised as
  (days, seconds, microseconds) with \<open>0 \<le> seconds < 86400\<close>; the attribute
  \<open>.seconds\<close> is that middle component, not the total length in seconds.
\<close>

type_synonym datetime = int

definition timedelta_seconds :: "int \<Rightarrow> int" where
  "timedelta_seconds us = (us div 1000000) mod 86400"

definition timedelta_total_seconds :: "int \<Rightarrow> real" where
  "timedelta_total_seconds us = real_of_int us / 1000000"

section \<open>governance.py\<close>

text \<open>
  \<open>decision.action_type.value\<close>: the decision carries an enumeration member whose
  \<open>value\<close> is a string.  The enumeration itself is declared elsewhere, so
  only its \<open>value\<close> is modelled.
\<close>

record ActionType =
  enum_value :: string

record Decision =
  action_type :: ActionType

record GovernanceGuardrails =
  max_autonomous_actions_per_hour :: int
  high_risk_actions :: "string set"
  action_log :: "datetime list"

definition GovernanceGuardrails_init :: GovernanceGuardrails where
  "GovernanceGuardrails_init =
     \<lparr>max_autonomous_actions_per_hour = 5,
      high_risk_actions = {''DISABLE_PAYMENT_METHOD''},
      action_log = []\<rparr>"

text \<open>\<open>allow\<close> takes the reading of \<open>datetime.now()\<close> as an argument and returns the
  pair it returns in Python together with the updated object.\<close>

definition allow ::
  "GovernanceGuardrails \<Rightarrow> Decision \<Rightarrow> datetime \<Rightarrow> (bool \<times> string) \<times> GovernanceGuardrails" where
  "allow g decision now =
     (let last_hour = filter (\<lambda>a. timedelta_seconds (now - a) < 3600) (action_log g) in
      if int (length last_hour) \<ge> max_autonomous_actions_per_hour g
        then ((False, ''Rate limit exceeded''), g)
      else if enum_value (action_type decision) \<in> high_risk_actions g
        then ((False, ''High-risk action requires approval''), g)
      else ((True, ''Allowed''), g\<lparr>action_log := action_log g @ [now]\<rparr>))"

text \<open>A sequence of calls, each with its decision and its clock reading; the answers
  are collected in call order.\<close>

fun allow_calls ::
  "GovernanceGuardrails \<Rightarrow> (Decision \<times> datetime) list \<Rightarrow> (bool \<times> string) list \<times> GovernanceGuardrails" where
  "allow_calls g [] = ([], g)"
| "allow_calls g ((d, now) # cs) =
     (let (r, g') = allow g d now; (rs, g'') = allow_calls g' cs in (r # rs, g''))"

text \<open>The count the specification describes: ledger entries whose timestamp lies
  within 3600 seconds of the current time.\<close>

definition spec_within_last_hour :: "datetime \<Rightarrow> datetime \<Rightarrow> bool" where
  "spec_within_last_hour now a =
     (0 \<le> timedelta_total_seconds (now - a) \<and> timedelta_total_seconds (now - a) < 3600)"

definition spec_recent_count :: "GovernanceGuardrails \<Rightarrow> datetime \<Rightarrow> nat" where
  "spec_recent_count g now = length (filter (spec_within_last_hour now) (action_log g))"

definition normal_decision :: Decision where
  "normal_decision = \<lparr>action_type = \<lparr>enum_value = ''ADJUST_RETRY_POLICY''\<rparr>\<rparr>"

definition high_risk_decision :: Decision where
  "high_risk_decision = \<lparr>action_type = \<lparr>enum_value = ''DISABLE_PAYMENT_METHOD''\<rparr>\<rparr>"

definition seconds :: "int \<Rightarrow> int" where
  "seconds n = n * 1000000"

section \<open>adaptive.py\<close>

subsection \<open>Doubles\<close>

text \<open>
  The threshold is a Python float, an IEEE binary64 number, and the claim about it is
  about what repeated multiplication does in the long run, so here the float is modelled
  with its rounding.  \<open>Finite m e\<close> is the number \<open>m * 2\<^sup>e\<close>; the threshold starts
  positive and is only multiplied by positive constants, so negative numbers are left
  out.  A product is computed exactly and rounded to the nearest double, ties to the
  even mantissa: 53 bits of mantissa, the exponent of the last bit not below -1074
  (below \<open>2\<^sup>-\<^sup>1\<^sup>0\<^sup>2\<^sup>2\<close> the numbers are subnormal), and a rounded value of
  \<open>2\<^sup>1\<^sup>0\<^sup>2\<^sup>4\<close> or more is \<open>+inf\<close>.
\<close>

datatype double = Finite nat int | PosInf | NaN

text \<open>The number of bits of a natural number.\<close>

fun bit_length :: "nat \<Rightarrow> nat" where
  "bit_length n = (if n = 0 then 0 else bit_length (n div 2) + 1)"

declare bit_length.simps [simp del]

text \<open>\<open>M / 2\<^sup>s\<close> rounded to the nearest natural number, ties to even (for \<open>s > 0\<close>).\<close>

definition round_shift :: "nat \<Rightarrow> nat \<Rightarrow> nat" where
  "round_shift M s =
     (let q = M div 2 ^ s; r = M mod 2 ^ s; h = 2 ^ (s - 1) in
      if r < h then q else if h < r then q + 1 else if even q then q else q + 1)"

text \<open>The double nearest to the exact value \<open>M * 2\<^sup>E\<close>.\<close>

definition round_to_double :: "nat \<Rightarrow> int \<Rightarrow> double" where
  "round_to_double M E =
     (let e = max (E + int (bit_length M) - 53) (- 1074);
          q = (if e \<le> E then M * 2 ^ nat (E - e) else round_shift M (nat (e - E)))
      in if 971 < e \<or> (e = 971 \<and> 2 ^ 53 \<le> q) then PosInf else Finite q e)"

text \<open>Multiplication and the comparison \<open><\<close>; every comparison with NaN is false, and
  \<open>inf * 0\<close> is NaN.\<close>

fun dmul :: "double \<Rightarrow> double \<Rightarrow> double" where
  "dmul (Finite m1 e1) (Finite m2 e2) = round_to_double (m1 * m2) (e1 + e2)"
| "dmul NaN y = NaN"
| "dmul x NaN = NaN"
| "dmul PosInf (Finite m e) = (if m = 0 then NaN else PosInf)"
| "dmul (Finite m e) PosInf = (if m = 0 then NaN else PosInf)"
| "dmul PosInf PosInf = PosInf"

fun dless :: "double \<Rightarrow> double \<Rightarrow> bool" where
  "dless (Finite m1 e1) (Finite m2 e2) =
     (let e = min e1 e2 in m1 * 2 ^ nat (e1 - e) < m2 * 2 ^ nat (e2 - e))"
| "dless (Finite m e) PosInf = True"
| "dless x y = False"

text \<open>The exact value of a finite double.\<close>

fun dval :: "double \<Rightarrow> real option" where
  "dval (Finite m e) = Some (if 0 \<le> e then real m * 2 ^ nat e else real m / 2 ^ nat (- e))"
| "dval PosInf = None"
| "dval NaN = None"

text \<open>The doubles the literals \<open>0.8\<close>, \<open>0.95\<close>, \<open>1.05\<close>, \<open>0.7\<close> and \<open>0.9\<close> of the source
  denote, and the doubles nearest to 0.5, 0.76 and 0.722 (\<open>constants_nearest\<close> below).\<close>

definition d_0_8 :: double where "d_0_8 = Finite 7205759403792794 (- 53)"
definition d_0_95 :: double where "d_0_95 = Finite 8556839292003942 (- 53)"
definition d_1_05 :: double where "d_1_05 = Finite 4728779608739021 (- 52)"
definition d_0_7 :: double where "d_0_7 = Finite 6305039478318694 (- 53)"
definition d_0_9 :: double where "d_0_9 = Finite 8106479329266893 (- 53)"
definition d_0_5 :: double where "d_0_5 = Finite 4503599627370496 (- 53)"
definition d_0_76 :: double where "d_0_76 = Finite 6845471433603154 (- 53)"
definition d_0_722 :: double where "d_0_722 = Finite 6503197861922996 (- 53)"

subsection \<open>AdaptivePolicy\<close>

record AdaptivePolicy =
  success_threshold :: double

definition AdaptivePolicy_init :: AdaptivePolicy where
  "AdaptivePolicy_init = \<lparr>success_threshold = d_0_8\<rparr>"

text \<open>\<open>metrics\<close> is a dictionary; \<open>metrics.get("success_rate", 0)\<close> reads it with
  default 0.  The method returns the threshold and the updated object.\<close>

definition update :: "AdaptivePolicy \<Rightarrow> (string \<rightharpoonup> double) \<Rightarrow> double \<times> AdaptivePolicy" where
  "update p metrics =
     (let sr = (case metrics ''success_rate'' of None \<Rightarrow> Finite 0 0 | Some v \<Rightarrow> v);
          p' = (if dless sr d_0_7
                  then p\<lparr>success_threshold := dmul (success_threshold p) d_0_95\<rparr>
                else if dless d_0_9 sr
                  then p\<lparr>success_threshold := dmul (success_threshold p) d_1_05\<rparr>
                else p)
      in (success_threshold p', p'))"

text \<open>\<open>n\<close> successive calls of \<open>update\<close> with the same metrics, and the thresholds they
  leave when the success rate is 0.5 and when it is 0.95, from a new policy.\<close>

fun update_times :: "nat \<Rightarrow> (string \<rightharpoonup> double) \<Rightarrow> AdaptivePolicy \<Rightarrow> AdaptivePolicy" where
  "update_times 0 metrics p = p"
| "update_times (Suc n) metrics p = snd (update (update_times n metrics p) metrics)"

definition metrics_with_rate :: "double \<Rightarrow> (string \<rightharpoonup> double)" where
  "metrics_with_rate r = [''success_rate'' \<mapsto> r]"

definition tightened :: "nat \<Rightarrow> double" where
  "tightened n = success_threshold (update_times n (metrics_with_rate d_0_5) AdaptivePolicy_init)"

definition relaxed :: "nat \<Rightarrow> double" where
  "relaxed n = success_threshold (update_times n (metrics_with_rate d_0_95) AdaptivePolicy_init)"

text \<open>What every product satisfies: at most 53 bits of mantissa (\<open>2\<^sup>5\<^sup>3\<close> itself can
  appear after rounding up), exponent in range, and a mantissa below \<open>2\<^sup>5\<^sup>2\<close> only at
  the least exponent.  \<open>scaled\<close> is the value in units of \<open>2\<^sup>-\<^sup>1\<^sup>0\<^sup>7\<^sup>4\<close>.\<close>

fun well_formed :: "double \<Rightarrow> bool" where
  "well_formed (Finite a x) =
     (a \<le> 2 ^ 53 \<and> - 1074 \<le> x \<and> x \<le> 971 \<and> (2 ^ 52 \<le> a \<or> x = - 1074 \<or> a = 0))"
| "well_formed PosInf = True"
| "well_formed NaN = True"

fun scaled :: "double \<Rightarrow> nat" where
  "scaled (Finite a x) = a * 2 ^ nat (x + 1074)"
| "scaled PosInf = 0"
| "scaled NaN = 0"

section \<open>core/agent.py\<close>

datatype PaymentStatus = SUCCESS | FAILURE | PENDING

text \<open>The string each member was declared with (\<open>SUCCESS = "success"\<close>, ...).\<close>

fun PaymentStatus_value :: "PaymentStatus \<Rightarrow> string" where
  "PaymentStatus_value SUCCESS = ''success''"
| "PaymentStatus_value FAILURE = ''failure''"
| "PaymentStatus_value PENDING = ''pending''"

fun PaymentStatus_name :: "PaymentStatus \<Rightarrow> string" where
  "PaymentStatus_name SUCCESS = ''SUCCESS''"
| "PaymentStatus_name FAILURE = ''FAILURE''"
| "PaymentStatus_name PENDING = ''PENDING''"

text \<open>Attribute access on the class, \<open>PaymentStatus.NAME\<close>: a name that is not a
  member raises AttributeError.\<close>

definition PaymentStatus_getattr :: "string \<Rightarrow> error + PaymentStatus" where
  "PaymentStatus_getattr name =
     (if name = ''SUCCESS'' then Inr SUCCESS
      else if name = ''FAILURE'' then Inr FAILURE
      else if name = ''PENDING'' then Inr PENDING
      else Inl (AttributeError name))"

text \<open>
  What callers pass as \<open>status\<close>: a member of the enumeration (the simulator, and the
  default value) or a plain string (the dashboard).  \<open>PaymentStatus\<close> is declared as
  \<open>class PaymentStatus(str, Enum)\<close>; \<open>str()\<close> of a member of such a class is
  \<open>Enum.__str__\<close>, the text \<open>ClassName.MEMBER\<close>, while \<open>str()\<close> of a string is the
  string itself.
\<close>

datatype status_arg = Member PaymentStatus | Plain string

fun py_str :: "status_arg \<Rightarrow> string" where
  "py_str (Member m) = ''PaymentStatus.'' @ PaymentStatus_name m"
| "py_str (Plain s) = s"

text \<open>Values that occur as extra keyword arguments and as attributes.\<close>

datatype timestamp_val = FloatTime real | DateTime datetime

datatype pyval = PNone | PInt int | PFloat real | PStr string | PTime timestamp_val

fun opt_str :: "string option \<Rightarrow> pyval" where
  "opt_str None = PNone"
| "opt_str (Some s) = PStr s"

record PaymentSignal =
  transaction_id :: string
  amount :: real
  currency :: string
  status :: string
  latency_ms :: real
  error_code :: "string option"
  timestamp :: timestamp_val
  payment_method :: "string option"
  processor :: "string option"
  issuer_bank :: "string option"

text \<open>\<open>PaymentSignal.__init__\<close>; the last argument is \<open>**kwargs\<close>, the keyword
  arguments that match none of the ten named parameters.\<close>

definition PaymentSignal_init ::
  "string \<Rightarrow> real \<Rightarrow> string \<Rightarrow> status_arg \<Rightarrow> real \<Rightarrow> string option \<Rightarrow> timestamp_val \<Rightarrow>
   string option \<Rightarrow> string option \<Rightarrow> string option \<Rightarrow> (string \<times> pyval) list \<Rightarrow> PaymentSignal" where
  "PaymentSignal_init transaction_id' amount' currency' status' latency_ms' error_code'
       timestamp' payment_method' processor' issuer_bank' kwargs =
     \<lparr>transaction_id = transaction_id',
      amount = amount',
      currency = currency',
      status = py_str status',
      latency_ms = latency_ms',
      error_code = error_code',
      timestamp = timestamp',
      payment_method = payment_method',
      processor = processor',
      issuer_bank = issuer_bank'\<rparr>"

text \<open>The same constructor seen as what it does to the instance dictionary: starting
  from an object without attributes, the ten assignments \<open>self.x = ...\<close> in order.\<close>

definition PaymentSignal_init_dict ::
  "string \<Rightarrow> real \<Rightarrow> string \<Rightarrow> status_arg \<Rightarrow> real \<Rightarrow> string option \<Rightarrow> timestamp_val \<Rightarrow>
   string option \<Rightarrow> string option \<Rightarrow> string option \<Rightarrow> (string \<times> pyval) list \<Rightarrow> (string \<rightharpoonup> pyval)" where
  "PaymentSignal_init_dict transaction_id' amount' currency' status' latency_ms' error_code'
       timestamp' payment_method' processor' issuer_bank' kwargs =
     Map.empty
       (''transaction_id'' \<mapsto> PStr transaction_id',
        ''amount'' \<mapsto> PFloat amount',
        ''currency'' \<mapsto> PStr currency',
        ''status'' \<mapsto> PStr (py_str status'),
        ''latency_ms'' \<mapsto> PFloat latency_ms',
        ''error_code'' \<mapsto> opt_str error_code',
        ''timestamp'' \<mapsto> PTime timestamp',
        ''payment_method'' \<mapsto> opt_str payment_method',
        ''processor'' \<mapsto> opt_str processor',
        ''issuer_bank'' \<mapsto> opt_str issuer_bank')"

text \<open>The instance dictionary of a signal held as a record.\<close>

definition vars_of :: "PaymentSignal \<Rightarrow> (string \<rightharpoonup> pyval)" where
  "vars_of s =
     [''transaction_id'' \<mapsto> PStr (transaction_id s),
      ''amount'' \<mapsto> PFloat (amount s),
      ''currency'' \<mapsto> PStr (currency s),
      ''status'' \<mapsto> PStr (status s),
      ''latency_ms'' \<mapsto> PFloat (latency_ms s),
      ''error_code'' \<mapsto> opt_str (error_code s),
      ''timestamp'' \<mapsto> PTime (timestamp s),
      ''payment_method'' \<mapsto> opt_str (payment_method s),
      ''processor'' \<mapsto> opt_str (processor s),
      ''issuer_bank'' \<mapsto> opt_str (issuer_bank s)]"

definition named_attributes :: "string set" where
  "named_attributes =
     {''transaction_id'', ''amount'', ''currency'', ''status'', ''latency_ms'', ''error_code'',
      ''timestamp'', ''payment_method'', ''processor'', ''issuer_bank''}"

record AgentMemory =
  recent_signals :: "PaymentSignal list"

record PaymentObserver =
  memory :: AgentMemory
  signals :: "PaymentSignal list"

definition AgentMemory_init :: AgentMemory where
  "AgentMemory_init = \<lparr>recent_signals = []\<rparr>"

definition PaymentObserver_init :: "AgentMemory \<Rightarrow> PaymentObserver" where
  "PaymentObserver_init m = \<lparr>memory = m, signals = []\<rparr>"

definition observe :: "PaymentObserver \<Rightarrow> PaymentSignal \<Rightarrow> PaymentObserver" where
  "observe ob signal =
     ob\<lparr>signals := signals ob @ [signal],
        memory := (memory ob)\<lparr>recent_signals := recent_signals (memory ob) @ [signal]\<rparr>\<rparr>"

fun observe_all :: "PaymentObserver \<Rightarrow> PaymentSignal list \<Rightarrow> PaymentObserver" where
  "observe_all ob [] = ob"
| "observe_all ob (s # ss) = observe_all (observe ob s) ss"

text \<open>Python's \<open>/\<close> on numbers raises ZeroDivisionError on a zero divisor.\<close>

definition py_truediv :: "real \<Rightarrow> real \<Rightarrow> error + real" where
  "py_truediv a b = (if b = 0 then Inl ZeroDivisionError else Inr (a / b))"

record Metrics =
  total_volume :: int
  success_count :: int
  failure_count :: int
  success_rate :: real
  failure_rate :: real
  avg_latency :: real
  retry_rate :: real

definition calculate_metrics :: "PaymentObserver \<Rightarrow> error + Metrics" where
  "calculate_metrics ob =
     (let total = int (length (signals ob)) in
      if total = 0 then
        Inr \<lparr>total_volume = 0, success_count = 0, failure_count = 0, success_rate = 0,
             failure_rate = 0, avg_latency = 0, retry_rate = 0\<rparr>
      else
        let success = (\<Sum>s \<leftarrow> filter (\<lambda>s. status s = ''success'') (signals ob). (1::int));
            failure = (\<Sum>s \<leftarrow> filter (\<lambda>s. status s = ''failure'') (signals ob). (1::int))
        in bind_e (py_truediv (real_of_int success) (real_of_int total)) (\<lambda>sr.
           bind_e (py_truediv (real_of_int failure) (real_of_int total)) (\<lambda>fr.
           bind_e (py_truediv (\<Sum>s \<leftarrow> signals ob. latency_ms s) (real_of_int total)) (\<lambda>al.
           Inr \<lparr>total_volume = total, success_count = success, failure_count = failure,
                success_rate = sr, failure_rate = fr, avg_latency = al, retry_rate = 0\<rparr>))))"

text \<open>The number of PENDING signals of a history, by the status each signal holds.\<close>

definition pending_count :: "PaymentSignal list \<Rightarrow> int" where
  "pending_count ss = int (length (filter (\<lambda>s. status s = ''pending'') ss))"

section \<open>simulation/simulator.py\<close>

subsection \<open>The random module\<close>

text \<open>
  The generator is a sequence of raw draws, consumed one per call.  A run is given by a
  finite prefix of that sequence, continued by zeros; one call of \<open>generate_payment\<close>
  reads only finitely many draws, so every outcome of the draws is some such prefix.
  \<open>random.random()\<close> is a multiple of \<open>2\<^sup>-\<^sup>5\<^sup>3\<close> in \<open>[0, 1)\<close>,
  \<open>random.randint(a, b)\<close> is \<open>a\<close> plus a number below \<open>b - a + 1\<close> (it is only called
  with constants \<open>a \<le> b\<close>), \<open>random.choice(seq)\<close> indexes \<open>seq\<close> with a number
  below its length and raises IndexError on an empty sequence, and
  \<open>random.uniform(a, b)\<close> is \<open>a + (b - a) * random()\<close>.
\<close>

type_synonym rng = "nat list"

fun next_raw :: "rng \<Rightarrow> nat \<times> rng" where
  "next_raw [] = (0, [])"
| "next_raw (x # xs) = (x, xs)"

definition random_random :: "rng \<Rightarrow> real \<times> rng" where
  "random_random g = (case next_raw g of (x, g') \<Rightarrow> (real (x mod 2 ^ 53) / 2 ^ 53, g'))"

definition random_randint :: "int \<Rightarrow> int \<Rightarrow> rng \<Rightarrow> int \<times> rng" where
  "random_randint a b g =
     (case next_raw g of (x, g') \<Rightarrow> (a + int (x mod nat (b - a + 1)), g'))"

definition random_choice :: "'a list \<Rightarrow> rng \<Rightarrow> error + ('a \<times> rng)" where
  "random_choice xs g =
     (if xs = [] then Inl IndexError
      else case next_raw g of (x, g') \<Rightarrow> Inr (xs ! (x mod length xs), g'))"

definition random_uniform :: "real \<Rightarrow> real \<Rightarrow> rng \<Rightarrow> real \<times> rng" where
  "random_uniform a b g = (case random_random g of (u, g') \<Rightarrow> (a + (b - a) * u, g'))"

subsection \<open>Built-ins: int(), round(x, 2), the format 06d\<close>

definition py_int :: "real \<Rightarrow> int" where
  "py_int x = (if 0 \<le> x then \<lfloor>x\<rfloor> else \<lceil>x\<rceil>)"

definition round_half_even :: "real \<Rightarrow> int" where
  "round_half_even x =
     (let f = \<lfloor>x\<rfloor>; d = x - of_int f in
      if d < 1 / 2 then f else if 1 / 2 < d then f + 1 else if even f then f else f + 1)"

definition py_round2 :: "real \<Rightarrow> real" where
  "py_round2 x = of_int (round_half_even (x * 100)) / 100"

fun dec_digits :: "nat \<Rightarrow> string" where
  "dec_digits n =
     (if n < 10 then [''0123456789'' ! n]
      else dec_digits (n div 10) @ [''0123456789'' ! (n mod 10)])"

definition zfill :: "nat \<Rightarrow> string \<Rightarrow> string" where
  "zfill w s = replicate (w - length s) (CHR ''0'') @ s"

definition format_06d :: "int \<Rightarrow> string" where
  "format_06d i =
     (if i < 0 then CHR ''-'' # zfill 5 (dec_digits (nat (- i)))
      else zfill 6 (dec_digits (nat i)))"

subsection \<open>PaymentSimulator\<close>

text \<open>A registered scenario is a dictionary with the keys \<open>type\<close>, \<open>affected\<close>,
  \<open>start\<close>, \<open>end\<close> and \<open>severity\<close>.\<close>

record Scenario =
  scn_type :: string
  scn_affected :: string
  scn_start :: int
  scn_end :: int
  scn_severity :: real

record PaymentSimulator =
  payment_methods :: "string list"
  issuer_banks :: "string list"
  processors :: "string list"
  error_codes :: "string list"
  currencies :: "string list"
  merchant_categories :: "string list"
  degradation_scenarios :: "Scenario list"
  transaction_counter :: int

definition PaymentSimulator_init :: PaymentSimulator where
  "PaymentSimulator_init =
     \<lparr>payment_methods = [''visa'', ''mastercard'', ''amex'', ''discover'', ''paypal''],
      issuer_banks = [''chase'', ''bofa'', ''wells_fargo'', ''citi'', ''capital_one''],
      processors = [''stripe'', ''adyen'', ''braintree'', ''square''],
      error_codes = [''E001_INSUFFICIENT_FUNDS'', ''E002_CARD_DECLINED'', ''E003_NETWORK_ERROR'',
                     ''E004_TIMEOUT'', ''E005_FRAUD_SUSPECTED'', ''E006_INVALID_CARD''],
      currencies = [''USD'', ''EUR'', ''GBP'', ''CAD''],
      merchant_categories = [''retail'', ''travel'', ''food'', ''entertainment'', ''services''],
      degradation_scenarios = [],
      transaction_counter = 0\<rparr>"

definition add_degradation_scenario ::
  "PaymentSimulator \<Rightarrow> string \<Rightarrow> string \<Rightarrow> int \<Rightarrow> int \<Rightarrow> real \<Rightarrow> PaymentSimulator" where
  "add_degradation_scenario sim scenario_type affected_dimension start_after duration severity =
     sim\<lparr>degradation_scenarios := degradation_scenarios sim @
           [\<lparr>scn_type = scenario_type,
             scn_affected = affected_dimension,
             scn_start = start_after,
             scn_end = start_after + duration,
             scn_severity = severity\<rparr>]\<rparr>"

text \<open>The local variables the scenario loop updates; \<open>forced_error\<close> is the local
  \<open>error_code\<close>.\<close>

record Draft =
  success_prob :: real
  base_latency :: int
  retry_count :: int
  forced_error :: "string option"

text \<open>One iteration of the loop over \<open>self.degradation_scenarios\<close>; a scenario of an
  unknown type matches no branch and changes nothing.\<close>

definition apply_scenario ::
  "int \<Rightarrow> string \<Rightarrow> string \<Rightarrow> Scenario \<Rightarrow> Draft \<times> rng \<Rightarrow> Draft \<times> rng" where
  "apply_scenario counter issuer pm scenario dg =
     (case dg of (d, g) \<Rightarrow>
      if scn_start scenario \<le> counter \<and> counter \<le> scn_end scenario then
        if scn_type scenario = ''issuer_degradation'' then
          (if scn_affected scenario = issuer
           then (d\<lparr>success_prob := success_prob d * (1 - scn_severity scenario),
                   base_latency := base_latency d + py_int (300 * scn_severity scenario)\<rparr>, g)
           else (d, g))
        else if scn_type scenario = ''method_fatigue'' then
          (if scn_affected scenario = pm
           then (d\<lparr>success_prob := success_prob d * (1 - scn_severity scenario)\<rparr>, g)
           else (d, g))
        else if scn_type scenario = ''retry_storm'' then
          (case random_random g of (u, g1) \<Rightarrow>
             if u < scn_severity scenario
             then (case random_randint 1 4 g1 of (r, g2) \<Rightarrow>
                     (d\<lparr>retry_count := r, success_prob := success_prob d * 0.7\<rparr>, g2))
             else (d, g1))
        else if scn_type scenario = ''latency_spike'' then
          (d\<lparr>base_latency := base_latency d + py_int (1000 * scn_severity scenario)\<rparr>, g)
        else if scn_type scenario = ''error_clustering'' then
          (case random_random g of (u, g1) \<Rightarrow>
             if u < scn_severity scenario
             then (d\<lparr>forced_error := Some (scn_affected scenario), success_prob := 0.1\<rparr>, g1)
             else (d, g1))
        else (d, g)
      else (d, g))"

fun apply_scenarios ::
  "int \<Rightarrow> string \<Rightarrow> string \<Rightarrow> Scenario list \<Rightarrow> Draft \<times> rng \<Rightarrow> Draft \<times> rng" where
  "apply_scenarios counter issuer pm [] dg = dg"
| "apply_scenarios counter issuer pm (s # ss) dg =
     apply_scenarios counter issuer pm ss (apply_scenario counter issuer pm s dg)"

text \<open>The outcome draw and the two branches after it.  The success branch reads
  \<open>PaymentStatus.SUCCESS\<close> and clears the error code; the other branch reads
  \<open>PaymentStatus.FAILED\<close> and then picks an error code when none was forced
  (\<open>not error_code\<close> holds for None and for the empty string).\<close>

definition determine_outcome ::
  "PaymentSimulator \<Rightarrow> Draft \<Rightarrow> rng \<Rightarrow> error + (PaymentStatus \<times> string option \<times> rng)" where
  "determine_outcome sim d g =
     (case random_random g of (u, g1) \<Rightarrow>
      if u < success_prob d then
        bind_e (PaymentStatus_getattr ''SUCCESS'') (\<lambda>st. Inr (st, None, g1))
      else
        bind_e (PaymentStatus_getattr ''FAILED'') (\<lambda>st.
          if forced_error d = None \<or> forced_error d = Some []
          then bind_e (random_choice (error_codes sim) g1) (\<lambda>(ec, g2). Inr (st, Some ec, g2))
          else Inr (st, forced_error d, g1)))"

text \<open>\<open>generate_payment\<close>: the counter is incremented first and stays incremented
  whatever happens next, so the updated simulator is returned beside the result.  The
  clock reading \<open>datetime.now()\<close> is an argument.  The three keyword arguments
  \<open>retry_count\<close>, \<open>merchant_category\<close> and \<open>risk_score\<close> are not parameters of the
  constructor and reach it as \<open>**kwargs\<close>.\<close>

definition generate_payment ::
  "PaymentSimulator \<Rightarrow> datetime \<Rightarrow> rng \<Rightarrow> (error + (PaymentSignal \<times> rng)) \<times> PaymentSimulator" where
  "generate_payment sim0 now g0 =
     (let sim = sim0\<lparr>transaction_counter := transaction_counter sim0 + 1\<rparr> in
      (bind_e (random_choice (payment_methods sim) g0) (\<lambda>(pm, g1).
       bind_e (random_choice (issuer_banks sim) g1) (\<lambda>(issuer, g2).
       bind_e (random_choice (processors sim) g2) (\<lambda>(proc, g3).
       case random_randint 200 800 g3 of (lat0, g4) \<Rightarrow>
       case apply_scenarios (transaction_counter sim) issuer pm (degradation_scenarios sim)
              (\<lparr>success_prob = 0.85, base_latency = lat0, retry_count = 0,
                forced_error = None\<rparr>, g4) of (d, g5) \<Rightarrow>
       bind_e (determine_outcome sim d g5) (\<lambda>(st, ec, g6).
       case random_randint (- 100) 100 g6 of (noise, g7) \<Rightarrow>
       case random_uniform 10 1000 g7 of (x, g8) \<Rightarrow>
       bind_e (random_choice (currencies sim) g8) (\<lambda>(cur, g9).
       bind_e (random_choice (merchant_categories sim) g9) (\<lambda>(cat, g10).
       case random_random g10 of (risk, g11) \<Rightarrow>
       Inr (PaymentSignal_init
              (''txn_'' @ format_06d (transaction_counter sim))
              (py_round2 x)
              cur
              (Member st)
              (real_of_int (max (base_latency d + noise) 100))
              ec
              (DateTime now)
              (Some pm)
              (Some proc)
              (Some issuer)
              [(''retry_count'', PInt (retry_count d)),
               (''merchant_category'', PStr cat),
               (''risk_score'', PFloat risk)],
            g11))))))),
       sim))"

definition setup_realistic_scenarios :: "PaymentSimulator \<Rightarrow> PaymentSimulator" where
  "setup_realistic_scenarios sim =
     (let s1 = add_degradation_scenario sim ''issuer_degradation'' ''chase'' 50 100 0.6;
          s2 = add_degradation_scenario s1 ''retry_storm'' ''global'' 100 50 0.5;
          s3 = add_degradation_scenario s2 ''method_fatigue'' ''visa'' 80 80 0.4;
          s4 = add_degradation_scenario s3 ''latency_spike'' ''global'' 150 30 0.7;
          s5 = add_degradation_scenario s4 ''error_clustering'' ''E005_FRAUD_SUSPECTED'' 180 40 0.25
      in s5)"

text \<open>A simulator whose counter is \<open>c - 1\<close>, so that the next signal is number \<open>c\<close>,
  with an issuer degradation for chase (severity 0.6) registered first and a method
  fatigue for visa (severity 0.4) registered second.\<close>

definition chase_visa_simulator :: "int \<Rightarrow> int \<Rightarrow> int \<Rightarrow> int \<Rightarrow> int \<Rightarrow> PaymentSimulator" where
  "chase_visa_simulator c s1 dur1 s2 dur2 =
     add_degradation_scenario
       (add_degradation_scenario (PaymentSimulator_init\<lparr>transaction_counter := c - 1\<rparr>)
          ''issuer_degradation'' ''chase'' s1 dur1 0.6)
       ''method_fatigue'' ''visa'' s2 dur2 0.4"

text \<open>What the specification asks of a scenario at registration: severity in
  \<open>[0, 1]\<close> and a duration that is not negative.\<close>

definition spec_valid_configuration :: "int \<Rightarrow> real \<Rightarrow> bool" where
  "spec_valid_configuration duration severity = (0 \<le> duration \<and> 0 \<le> severity \<and> severity \<le> 1)"

section \<open>Properties of the guardrail\<close>

lemma timedelta_seconds_recent:
  "0 \<le> x \<Longrightarrow> x < seconds 3600 \<Longrightarrow> timedelta_seconds x < 3600"
  unfolding timedelta_seconds_def seconds_def
proof -
  assume a: "0 \<le> x" "x < 3600 * 1000000"
  have "0 \<le> x div 1000000" using a by simp
  moreover have "x div 1000000 < 3600" using a by linarith
  ultimately show "x div 1000000 mod 86400 < 3600" by simp
qed

lemma filter_recent_all:
  assumes "\<forall>a \<in> set xs. 0 \<le> now - a \<and> now - a < seconds 3600"
  shows "filter (\<lambda>a. timedelta_seconds (now - a) < 3600) xs = xs"
  using assms by (simp add: timedelta_seconds_recent)

lemma allow_approves:
  assumes "\<forall>a \<in> set (action_log g). 0 \<le> now - a \<and> now - a < seconds 3600"
    and "int (length (action_log g)) < max_autonomous_actions_per_hour g"
    and "enum_value (action_type d) \<notin> high_risk_actions g"
  shows "allow g d now = ((True, ''Allowed''), g\<lparr>action_log := action_log g @ [now]\<rparr>)"
  using assms(2,3) by (simp add: allow_def filter_recent_all [OF assms(1)])

lemma allow_rate_limited:
  assumes "\<forall>a \<in> set (action_log g). 0 \<le> now - a \<and> now - a < seconds 3600"
    and "max_autonomous_actions_per_hour g \<le> int (length (action_log g))"
  shows "allow g d now = ((False, ''Rate limit exceeded''), g)"
  using assms(2) by (simp add: allow_def filter_recent_all [OF assms(1)])

lemma allow_ledger:
  "snd (allow g d now) =
     (if fst (fst (allow g d now)) then g\<lparr>action_log := action_log g @ [now]\<rparr> else g)"
  by (simp add: allow_def Let_def)

lemma allow_reason:
  "fst (allow g d now) \<in> {(False, ''Rate limit exceeded''), (False, ''High-risk action requires approval''), (True, ''Allowed'')}"
  by (simp add: allow_def Let_def)

lemma allow_five_then_sixth:
  assumes "t1 \<le> t2" "t2 \<le> t3" "t3 \<le> t4" "t4 \<le> t5" "t5 \<le> t6" "t6 < t1 + seconds 3600"
    and "\<forall>d \<in> set [d1, d2, d3, d4, d5]. enum_value (action_type d) \<noteq> ''DISABLE_PAYMENT_METHOD''"
  shows "fst (allow_calls GovernanceGuardrails_init
           [(d1, t1), (d2, t2), (d3, t3), (d4, t4), (d5, t5), (d6, t6)])
         = [(True, ''Allowed''), (True, ''Allowed''), (True, ''Allowed''), (True, ''Allowed''),
            (True, ''Allowed'')] @ [(False, ''Rate limit exceeded'')]"
proof -
  let ?g = "\<lambda>xs. GovernanceGuardrails_init\<lparr>action_log := xs\<rparr>"
  have g0: "GovernanceGuardrails_init = ?g []" by (simp add: GovernanceGuardrails_init_def)
  have step: "allow (?g xs) d now = ((True, ''Allowed''), ?g (xs @ [now]))"
    if "\<forall>a \<in> set xs. 0 \<le> now - a \<and> now - a < seconds 3600" "length xs < 5"
       "enum_value (action_type d) \<noteq> ''DISABLE_PAYMENT_METHOD''" for xs d now
    using that allow_approves [of "?g xs" now d] by (simp add: GovernanceGuardrails_init_def)
  have a1: "allow (?g []) d1 t1 = ((True, ''Allowed''), ?g [t1])"
    using step [of "[]" t1 d1] assms by simp
  have a2: "allow (?g [t1]) d2 t2 = ((True, ''Allowed''), ?g [t1, t2])"
    using step [of "[t1]" t2 d2] assms by simp
  have a3: "allow (?g [t1, t2]) d3 t3 = ((True, ''Allowed''), ?g [t1, t2, t3])"
    using step [of "[t1, t2]" t3 d3] assms by simp
  have a4: "allow (?g [t1, t2, t3]) d4 t4 = ((True, ''Allowed''), ?g [t1, t2, t3, t4])"
    using step [of "[t1, t2, t3]" t4 d4] assms by simp
  have a5: "allow (?g [t1, t2, t3, t4]) d5 t5 = ((True, ''Allowed''), ?g [t1, t2, t3, t4, t5])"
    using step [of "[t1, t2, t3, t4]" t5 d5] assms by simp
  have a6: "allow (?g [t1, t2, t3, t4, t5]) d6 t6
              = ((False, ''Rate limit exceeded''), ?g [t1, t2, t3, t4, t5])"
    using allow_rate_limited [of "?g [t1, t2, t3, t4, t5]" t6 d6] assms
    by (simp add: GovernanceGuardrails_init_def)
  show ?thesis
    by (simp add: a1 [folded g0] a2 a3 a4 a5 a6)
qed

lemma allow_rate_limit_before_high_risk:
  assumes "\<forall>a \<in> set (action_log g). 0 \<le> now - a \<and> now - a < seconds 3600"
    and "max_autonomous_actions_per_hour g \<le> int (length (action_log g))"
    and "enum_value (action_type d) \<in> high_risk_actions g"
  shows "fst (allow g d now) = (False, ''Rate limit exceeded'')"
  using allow_rate_limited [OF assms(1,2)] by simp

text \<open>
  C2.  The claim: \<open>allow\<close> counts exactly the ledger entries whose timestamps lie within
  3600 seconds of the current time and rejects with "Rate limit exceeded" exactly when
  that count reaches the limit.  The code compares \<open>(now - a).seconds\<close>, the seconds
  component of the normalised difference, which drops whole days.  Five approvals in the
  first five seconds, then a call one day and ten seconds after the first: no ledger
  entry lies within 3600 seconds of that call, and it is rejected with
  "Rate limit exceeded".
\<close>

theorem allow_day_old_entries_still_counted:
  "allow_calls GovernanceGuardrails_init
     [(normal_decision, seconds 0), (normal_decision, seconds 1), (normal_decision, seconds 2),
      (normal_decision, seconds 3), (normal_decision, seconds 4)]
   = ([(True, ''Allowed''), (True, ''Allowed''), (True, ''Allowed''), (True, ''Allowed''),
            (True, ''Allowed'')],
      GovernanceGuardrails_init
        \<lparr>action_log := [seconds 0, seconds 1, seconds 2, seconds 3, seconds 4]\<rparr>)
   \<and> spec_recent_count
        (GovernanceGuardrails_init
           \<lparr>action_log := [seconds 0, seconds 1, seconds 2, seconds 3, seconds 4]\<rparr>)
        (seconds 86410) = 0
   \<and> fst (allow
        (GovernanceGuardrails_init
           \<lparr>action_log := [seconds 0, seconds 1, seconds 2, seconds 3, seconds 4]\<rparr>)
        normal_decision (seconds 86410)) = (False, ''Rate limit exceeded'')"
  by (simp add: allow_def GovernanceGuardrails_init_def normal_decision_def seconds_def
      timedelta_seconds_def spec_recent_count_def spec_within_last_hour_def
      timedelta_total_seconds_def)

text \<open>
  C3.  \<open>allow\<close> appends the clock reading to the ledger exactly when it approves, and
  leaves the guardrail as it was on every rejection.  A DISABLE_PAYMENT_METHOD decision
  on the empty ledger is rejected with "High-risk action requires approval" and leaves
  the ledger empty; five decisions that are not high-risk, made afterwards within the
  same hour, are all approved.
\<close>

theorem allow_records_only_approvals:
  assumes "t0 \<le> t1" "t1 \<le> t2" "t2 \<le> t3" "t3 \<le> t4" "t4 \<le> t5" "t5 < t0 + seconds 3600"
    and "\<forall>d \<in> set [d1, d2, d3, d4, d5]. enum_value (action_type d) \<noteq> ''DISABLE_PAYMENT_METHOD''"
  shows "snd (allow g d now) =
           (if fst (fst (allow g d now)) then g\<lparr>action_log := action_log g @ [now]\<rparr> else g)
       \<and> allow GovernanceGuardrails_init high_risk_decision t0 =
           ((False, ''High-risk action requires approval''), GovernanceGuardrails_init)
       \<and> allow_calls GovernanceGuardrails_init
           [(high_risk_decision, t0), (d1, t1), (d2, t2), (d3, t3), (d4, t4), (d5, t5)] =
           ((False, ''High-risk action requires approval'') # [(True, ''Allowed''), (True, ''Allowed''), (True, ''Allowed''), (True, ''Allowed''),
            (True, ''Allowed'')],
            GovernanceGuardrails_init\<lparr>action_log := [t1, t2, t3, t4, t5]\<rparr>)"
proof -
  let ?g = "\<lambda>xs. GovernanceGuardrails_init\<lparr>action_log := xs\<rparr>"
  have g0: "GovernanceGuardrails_init = ?g []" by (simp add: GovernanceGuardrails_init_def)
  have hr: "allow GovernanceGuardrails_init high_risk_decision t0 =
           ((False, ''High-risk action requires approval''), GovernanceGuardrails_init)"
    by (simp add: allow_def GovernanceGuardrails_init_def high_risk_decision_def)
  have step: "allow (?g xs) d now = ((True, ''Allowed''), ?g (xs @ [now]))"
    if "\<forall>a \<in> set xs. 0 \<le> now - a \<and> now - a < seconds 3600" "length xs < 5"
       "enum_value (action_type d) \<noteq> ''DISABLE_PAYMENT_METHOD''" for xs d now
    using that allow_approves [of "?g xs" now d] by (simp add: GovernanceGuardrails_init_def)
  have a1: "allow (?g []) d1 t1 = ((True, ''Allowed''), ?g [t1])"
    using step [of "[]" t1 d1] assms by simp
  have a2: "allow (?g [t1]) d2 t2 = ((True, ''Allowed''), ?g [t1, t2])"
    using step [of "[t1]" t2 d2] assms by simp
  have a3: "allow (?g [t1, t2]) d3 t3 = ((True, ''Allowed''), ?g [t1, t2, t3])"
    using step [of "[t1, t2]" t3 d3] assms by simp
  have a4: "allow (?g [t1, t2, t3]) d4 t4 = ((True, ''Allowed''), ?g [t1, t2, t3, t4])"
    using step [of "[t1, t2, t3]" t4 d4] assms by simp
  have a5: "allow (?g [t1, t2, t3, t4]) d5 t5 = ((True, ''Allowed''), ?g [t1, t2, t3, t4, t5])"
    using step [of "[t1, t2, t3, t4]" t5 d5] assms by simp
  have calls: "allow_calls GovernanceGuardrails_init
           [(high_risk_decision, t0), (d1, t1), (d2, t2), (d3, t3), (d4, t4), (d5, t5)] =
           ((False, ''High-risk action requires approval'') # [(True, ''Allowed''), (True, ''Allowed''), (True, ''Allowed''), (True, ''Allowed''),
            (True, ''Allowed'')],
            ?g [t1, t2, t3, t4, t5])"
    using hr by (simp add: g0 [symmetric] a1 [folded g0] a2 a3 a4 a5)
  show ?thesis
    using allow_ledger [of g d now] hr calls by simp
qed

theorem allow_records_only_approvals_witness:
  "snd (allow GovernanceGuardrails_init high_risk_decision 0) = GovernanceGuardrails_init
   \<and> allow_calls GovernanceGuardrails_init
       [(high_risk_decision, 0), (normal_decision, seconds 1), (normal_decision, seconds 2),
        (normal_decision, seconds 3), (normal_decision, seconds 4), (normal_decision, seconds 5)] =
       ((False, ''High-risk action requires approval'') # [(True, ''Allowed''), (True, ''Allowed''), (True, ''Allowed''), (True, ''Allowed''),
            (True, ''Allowed'')],
        GovernanceGuardrails_init
          \<lparr>action_log := [seconds 1, seconds 2, seconds 3, seconds 4, seconds 5]\<rparr>)"
proof -
  have h: "\<forall>d \<in> set [normal_decision, normal_decision, normal_decision, normal_decision,
             normal_decision]. enum_value (action_type d) \<noteq> ''DISABLE_PAYMENT_METHOD''"
    by (simp add: normal_decision_def)
  have t: "(0::int) \<le> seconds 1" "seconds 1 \<le> seconds 2" "seconds 2 \<le> seconds 3"
    "seconds 3 \<le> seconds 4" "seconds 4 \<le> seconds 5" "seconds 5 < 0 + seconds 3600"
    by (simp_all add: seconds_def)
  show ?thesis
    using allow_records_only_approvals [OF t h, of GovernanceGuardrails_init high_risk_decision 0]
    by (simp del: allow_calls.simps split: if_splits)
qed

section \<open>Properties of the adaptive policy\<close>

lemma bit_length_bounds:
  "0 < n \<Longrightarrow> 2 ^ (bit_length n - 1) \<le> n \<and> n < 2 ^ bit_length n"
proof (induction n rule: bit_length.induct)
  case (1 n)
  show ?case
  proof (cases "n div 2 = 0")
    case True
    with "1.prems" have "n = 1" by (simp add: div_eq_0_iff) 
    then show ?thesis by (simp add: bit_length.simps)
  next
    case False
    then have pos: "0 < n div 2" by simp
    from "1.prems" have n0: "n \<noteq> 0" by simp
    have ih: "2 ^ (bit_length (n div 2) - 1) \<le> n div 2 \<and> n div 2 < 2 ^ bit_length (n div 2)"
      using "1.IH" [OF n0 pos] .
    have bl: "bit_length n = bit_length (n div 2) + 1"
      using n0 by (simp add: bit_length.simps [of n])
    have blpos: "0 < bit_length (n div 2)"
      using pos by (simp add: bit_length.simps [of "n div 2"])
    then obtain k where k: "bit_length (n div 2) = Suc k" by (cases "bit_length (n div 2)") auto
    from ih k have a: "2 ^ k \<le> n div 2" and b: "n div 2 < 2 ^ Suc k" by simp_all
    have "2 * 2 ^ k \<le> n" using a by linarith
    moreover have "n < 2 * 2 ^ Suc k" using b by linarith
    ultimately show ?thesis by (simp add: bl k)
  qed
qed

lemma bit_length_le: "n < 2 ^ k \<Longrightarrow> bit_length n \<le> k"
proof (cases "n = 0")
  case True
  then show ?thesis by (simp add: bit_length.simps)
next
  case False
  assume "n < 2 ^ k"
  moreover have "2 ^ (bit_length n - 1) \<le> n" using False bit_length_bounds [of n] by simp
  ultimately have "(2::nat) ^ (bit_length n - 1) < 2 ^ k" by linarith
  then have "bit_length n - 1 < k" by simp
  then show ?thesis by linarith
qed

lemma bit_length_gt: "2 ^ k \<le> n \<Longrightarrow> k < bit_length n"
proof -
  assume a: "2 ^ k \<le> n"
  then have "0 < n" by (metis zero_less_numeral zero_less_power less_le_trans)
  then have "n < 2 ^ bit_length n" using bit_length_bounds by simp
  with a have "(2::nat) ^ k < 2 ^ bit_length n" by linarith
  then show ?thesis by simp
qed

lemma round_shift_bounds:
  assumes "0 < s"
  shows "round_shift M s * 2 ^ s \<le> M + 2 ^ (s - 1)"
    and "M \<le> round_shift M s * 2 ^ s + 2 ^ (s - 1)"
proof -
  obtain k where s: "s = Suc k" using assms by (cases s) auto
  define q where "q = M div 2 ^ s"
  define r where "r = M mod 2 ^ s"
  define h :: nat where "h = 2 ^ k"
  have dm: "M = q * (2 * h) + r"
    unfolding q_def r_def h_def s by (simp add: div_mult_mod_eq)
  have r: "r < 2 * h" unfolding r_def h_def s by simp
  have rs: "round_shift M s = (if r < h then q else if h < r then q + 1 else if even q then q else q + 1)"
    unfolding round_shift_def Let_def q_def r_def h_def s by simp
  have p: "(2::nat) ^ s = 2 * h" "(2::nat) ^ (s - 1) = h" by (simp_all add: s h_def)
  show "round_shift M s * 2 ^ s \<le> M + 2 ^ (s - 1)"
    unfolding rs p using dm r by (auto simp: algebra_simps)
  show "M \<le> round_shift M s * 2 ^ s + 2 ^ (s - 1)"
    unfolding rs p using dm r by (auto simp: algebra_simps)
qed

lemma round_shift_ge_div: "M div 2 ^ s \<le> round_shift M s"
  by (simp add: round_shift_def Let_def)

lemma dless_base:
  assumes "b \<le> e1" "b \<le> e2"
  shows "dless (Finite m1 e1) (Finite m2 e2)
         \<longleftrightarrow> m1 * 2 ^ nat (e1 - b) < m2 * 2 ^ nat (e2 - b)"
proof -
  define mn where "mn = min e1 e2"
  define K :: nat where "K = 2 ^ nat (mn - b)"
  have K: "0 < K" by (simp add: K_def)
  have b: "b \<le> mn" using assms by (simp add: mn_def)
  have mn: "mn \<le> e1" "mn \<le> e2" by (simp_all add: mn_def)
  have p1: "(2::nat) ^ nat (e1 - b) = 2 ^ nat (e1 - mn) * K"
    unfolding K_def power_add [symmetric] using b mn by (simp add: nat_add_distrib [symmetric])
  have p2: "(2::nat) ^ nat (e2 - b) = 2 ^ nat (e2 - mn) * K"
    unfolding K_def power_add [symmetric] using b mn by (simp add: nat_add_distrib [symmetric])
  have "dless (Finite m1 e1) (Finite m2 e2)
        \<longleftrightarrow> m1 * 2 ^ nat (e1 - mn) < m2 * 2 ^ nat (e2 - mn)"
    by (simp add: Let_def mn_def)
  also have "\<dots> \<longleftrightarrow> (m1 * 2 ^ nat (e1 - mn)) * K < (m2 * 2 ^ nat (e2 - mn)) * K"
    using K by simp
  also have "\<dots> \<longleftrightarrow> m1 * 2 ^ nat (e1 - b) < m2 * 2 ^ nat (e2 - b)"
    by (simp add: p1 p2 mult.assoc)
  finally show ?thesis .
qed

text \<open>The comparison is the order of the exact values.\<close>

lemma pow_nat_powr: "(2::real) ^ n = 2 powr (real n)"
  by (simp add: powr_realpow)

lemma finite_value_powr:
  "(if 0 \<le> e then real m * 2 ^ nat e else real m / 2 ^ nat (- e)) = real m * 2 powr (real_of_int e)"
proof (cases "0 \<le> e")
  case True
  then have "real (nat e) = real_of_int e" by simp
  then have "(2::real) ^ nat e = 2 powr (real_of_int e)" by (simp only: pow_nat_powr)
  then show ?thesis using True by (simp only: if_True)
next
  case False
  then have "real (nat (- e)) = - real_of_int e" by simp
  then have "(2::real) ^ nat (- e) = 2 powr (- real_of_int e)" by (simp only: pow_nat_powr)
  then have "real m / 2 ^ nat (- e) = real m * 2 powr (real_of_int e)"
    by (simp add: powr_minus divide_inverse)
  then show ?thesis using False by (simp only: if_False)
qed

lemma dless_dval:
  assumes "dval a = Some u" "dval b = Some v"
  shows "dless a b \<longleftrightarrow> u < v"
proof -
  obtain m1 e1 where a: "a = Finite m1 e1" using assms(1) by (cases a) simp_all
  obtain m2 e2 where b: "b = Finite m2 e2" using assms(2) by (cases b) simp_all
  have u: "u = real m1 * 2 powr (real_of_int e1)"
    using assms(1) unfolding a by (simp only: dval.simps option.inject finite_value_powr)
  have v: "v = real m2 * 2 powr (real_of_int e2)"
    using assms(2) unfolding b by (simp only: dval.simps option.inject finite_value_powr)
  define c where "c = min e1 e2"
  have c: "c \<le> e1" "c \<le> e2" by (simp_all add: c_def)
  have p1: "2 powr (real_of_int e1) = 2 ^ nat (e1 - c) * 2 powr (real_of_int c)"
  proof -
    have "real_of_int e1 = real (nat (e1 - c)) + real_of_int c" using c by simp
    then show ?thesis by (simp only: powr_add pow_nat_powr)
  qed
  have p2: "2 powr (real_of_int e2) = 2 ^ nat (e2 - c) * 2 powr (real_of_int c)"
  proof -
    have "real_of_int e2 = real (nat (e2 - c)) + real_of_int c" using c by simp
    then show ?thesis by (simp only: powr_add pow_nat_powr)
  qed
  have pos: "0 < (2::real) powr (real_of_int c)" by simp
  have "dless a b \<longleftrightarrow> m1 * 2 ^ nat (e1 - c) < m2 * 2 ^ nat (e2 - c)"
    unfolding a b using dless_base [OF c] .
  also have "\<dots> \<longleftrightarrow> real (m1 * 2 ^ nat (e1 - c)) < real (m2 * 2 ^ nat (e2 - c))"
    by (simp only: of_nat_less_iff)
  also have "\<dots> \<longleftrightarrow> real (m1 * 2 ^ nat (e1 - c)) * 2 powr (real_of_int c)
                   < real (m2 * 2 ^ nat (e2 - c)) * 2 powr (real_of_int c)"
    using pos by (simp only: mult_less_cancel_right_pos)
  also have "\<dots> \<longleftrightarrow> u < v"
    unfolding u v p1 p2 by (simp add: mult.assoc)
  finally show ?thesis .
qed

lemma round_to_double_Finite:
  assumes "round_to_double M E = Finite q e"
  shows "e = max (E + int (bit_length M) - 53) (- 1074)"
    and "q = (if e \<le> E then M * 2 ^ nat (E - e) else round_shift M (nat (e - E)))"
    and "e \<le> 971" and "e = 971 \<longrightarrow> q < 2 ^ 53"
  using assms by (auto simp: round_to_double_def Let_def split: if_splits)

lemma round_to_double_inv:
  assumes "round_to_double M E = Finite q e"
  shows "q \<le> 2 ^ 53 \<and> - 1074 \<le> e \<and> e \<le> 971"
proof -
  define L where "L = bit_length M"
  have e: "e = max (E + int L - 53) (- 1074)"
    and q: "q = (if e \<le> E then M * 2 ^ nat (E - e) else round_shift M (nat (e - E)))"
    and e971: "e \<le> 971"
    using round_to_double_Finite [OF assms] by (simp_all add: L_def)
  have Mlt: "M < 2 ^ L"
  proof (cases "M = 0")
    case True then show ?thesis by simp
  next
    case False then show ?thesis using bit_length_bounds [of M] by (simp add: L_def)
  qed
  have q53: "q \<le> 2 ^ 53"
  proof (cases "e \<le> E")
    case True
    then have qq: "q = M * 2 ^ nat (E - e)" using q by simp
    have "E + int L - 53 \<le> e" using e by simp
    then have le: "L + nat (E - e) \<le> 53" using True by linarith
    have "q < 2 ^ L * 2 ^ nat (E - e)" unfolding qq using Mlt by simp
    also have "\<dots> = 2 ^ (L + nat (E - e))" by (simp add: power_add)
    also have "\<dots> \<le> (2::nat) ^ 53" using le by (intro power_increasing) simp_all
    finally show ?thesis by simp
  next
    case False
    define s where "s = nat (e - E)"
    have s: "0 < s" using False by (simp add: s_def)
    have qq: "q = round_shift M s" using q False by (simp add: s_def)
    have "E + int L - 53 \<le> e" using e by simp
    then have le: "L \<le> s + 53" using False unfolding s_def by linarith
    have "M < 2 ^ L" by (rule Mlt)
    also have "\<dots> \<le> (2::nat) ^ (s + 53)" using le by (intro power_increasing) simp_all
    finally have M: "M < 2 ^ 53 * 2 ^ s" by (simp add: power_add mult.commute)
    have "(2::nat) ^ (s - 1) \<le> 2 ^ s" by (intro power_increasing) simp_all
    then have "q * 2 ^ s < 2 ^ 53 * 2 ^ s + 2 ^ s"
      using round_shift_bounds(1) [OF s, of M] M unfolding qq by linarith
    then have "q * 2 ^ s < (2 ^ 53 + 1) * 2 ^ s" by (simp add: algebra_simps)
    then have "q < 2 ^ 53 + 1" by simp
    then show ?thesis by simp
  qed
  show ?thesis using q53 e e971 by simp
qed

lemma dmul_d_0_95_decreases:
  assumes "10 \<le> a" "a \<le> 2 ^ 53" "- 1074 \<le> x" "x \<le> 971"
  shows "dless (dmul (Finite a x) d_0_95) (Finite a x)"
proof -
  define c :: nat where "c = 8556839292003942"
  define M where "M = a * c"
  define E where "E = x + (- 53)"
  define e where "e = max (E + int (bit_length M) - 53) (- 1074)"
  define q where "q = (if e \<le> E then M * 2 ^ nat (E - e) else round_shift M (nat (e - E)))"
  have c53: "c < 2 ^ 53" by (simp add: c_def)
  have a0: "0 < a" using assms(1) by simp
  have "M \<le> 2 ^ 53 * c" unfolding M_def using assms(2) by simp
  also have "\<dots> < 2 ^ 53 * 2 ^ 53" using c53 by simp
  finally have "M < 2 ^ 106" by simp
  then have L: "bit_length M \<le> 106" by (rule bit_length_le)
  have ex: "e \<le> x" using L assms(3) unfolding e_def E_def by simp
  have key: "q < a * 2 ^ nat (x - e)"
  proof (cases "e \<le> E")
    case True
    define K :: nat where "K = 2 ^ nat (E - e)"
    have K: "0 < K" by (simp add: K_def)
    have "nat (x - e) = 53 + nat (E - e)" using True unfolding E_def by linarith
    then have p: "(2::nat) ^ nat (x - e) = 2 ^ 53 * K" by (simp add: K_def power_add)
    have "q = a * c * K" using True by (simp add: q_def M_def K_def)
    also have "\<dots> = c * (a * K)" by (simp add: mult_ac)
    also have "\<dots> < 2 ^ 53 * (a * K)" using c53 a0 K by simp
    also have "\<dots> = a * 2 ^ nat (x - e)" by (simp add: p mult_ac)
    finally show ?thesis .
  next
    case False
    define s where "s = nat (e - E)"
    have s: "0 < s" using False by (simp add: s_def)
    have s53: "s \<le> 53" using ex unfolding s_def E_def by linarith
    have qq: "q = round_shift M s" using False by (simp add: q_def s_def)
    have sp: "nat (x - e) + s = 53" using ex False unfolding s_def E_def by linarith
    have "(2::nat) ^ (s - 1) \<le> 2 ^ 52" using s53 by (intro power_increasing) simp_all
    then have "q * 2 ^ s \<le> a * c + 2 ^ 52"
      using round_shift_bounds(1) [OF s, of M] unfolding qq M_def by linarith
    also have "\<dots> < a * 2 ^ 53"
    proof -
      have "10 * (2 ^ 53 - c) \<le> a * (2 ^ 53 - c)" using assms(1) by (intro mult_right_mono) simp_all
      moreover have "(2::nat) ^ 52 < 10 * (2 ^ 53 - c)" by (simp add: c_def)
      ultimately have "2 ^ 52 < a * (2 ^ 53 - c)" by linarith
      moreover have "a * (2 ^ 53 - c) + a * c = a * 2 ^ 53"
        using c53 by (simp add: distrib_left [symmetric])
      ultimately show ?thesis by linarith
    qed
    also have "\<dots> = (a * 2 ^ nat (x - e)) * 2 ^ s"
      by (simp add: mult.assoc power_add [symmetric] sp)
    finally show ?thesis by simp
  qed
  have e971: "e \<le> 971" using ex assms(4) by simp
  have "e = 971 \<Longrightarrow> q < 2 ^ 53"
  proof -
    assume "e = 971"
    then have "x = e" using ex assms(4) by simp
    then have "q < a" using key by simp
    then show ?thesis using assms(2) by simp
  qed
  then have no: "\<not> (971 < e \<or> (e = 971 \<and> 2 ^ 53 \<le> q))"
    using e971 by auto
  have "dmul (Finite a x) d_0_95 = round_to_double M E"
    by (simp add: d_0_95_def M_def E_def c_def)
  also have "\<dots> = (if 971 < e \<or> (e = 971 \<and> 2 ^ 53 \<le> q) then PosInf else Finite q e)"
    unfolding round_to_double_def Let_def e_def q_def by (rule refl)
  finally have res: "dmul (Finite a x) d_0_95 = Finite q e"
    using no by simp
  show ?thesis
    unfolding res using dless_base [of e e x q a] ex key by simp
qed

lemma dmul_d_1_05_increases:
  assumes "2 ^ 52 \<le> a" "a \<le> 2 ^ 53" "- 1074 \<le> x"
  shows "dless (Finite a x) (dmul (Finite a x) d_1_05)"
    and "dmul (Finite a x) d_1_05 = Finite q e \<Longrightarrow> 2 ^ 52 \<le> q"
proof -
  define c :: nat where "c = 4728779608739021"
  define M where "M = a * c"
  define E where "E = x + (- 52)"
  define L where "L = bit_length M"
  define e' where "e' = max (E + int L - 53) (- 1074)"
  define q' where "q' = (if e' \<le> E then M * 2 ^ nat (E - e') else round_shift M (nat (e' - E)))"
  have c52: "2 ^ 52 < c" and c53: "c < 2 ^ 53" by (simp_all add: c_def)
  have a0: "0 < a" using assms(1) by (metis zero_less_numeral zero_less_power less_le_trans)
  have "M \<le> 2 ^ 53 * c" unfolding M_def using assms(2) by simp
  also have "\<dots> < 2 ^ 53 * 2 ^ 53" using c53 by simp
  finally have "M < 2 ^ 106" by simp
  then have L106: "L \<le> 106" unfolding L_def by (rule bit_length_le)
  have "(2::nat) ^ 52 * 2 ^ 52 \<le> a * c"
    using assms(1) c52 by (intro mult_mono) simp_all
  then have M104: "2 ^ 104 \<le> M" by (simp add: M_def)
  then have L105: "105 \<le> L" using bit_length_gt [of 104 M] by (simp add: L_def)
  have e'eq: "e' = E + int L - 53" using L105 assms(3) unfolding e'_def E_def by simp
  have eE: "\<not> e' \<le> E" using L105 unfolding e'eq by simp
  define s where "s = L - 53"
  have snat: "nat (e' - E) = s" unfolding e'eq s_def using L105 by simp
  have s: "0 < s" "52 \<le> s" "s \<le> 53" using L105 L106 by (simp_all add: s_def)
  have qq: "q' = round_shift M s" using eE by (simp add: q'_def snat)
  have xe: "x \<le> e'" using L105 unfolding e'eq E_def by simp
  have sp: "nat (e' - x) + 52 = s" using L105 unfolding e'eq E_def s_def by linarith
  have "dmul (Finite a x) d_1_05 = round_to_double M E"
    by (simp add: d_1_05_def M_def E_def c_def)
  also have "\<dots> = (if 971 < e' \<or> (e' = 971 \<and> 2 ^ 53 \<le> q') then PosInf else Finite q' e')"
    unfolding round_to_double_def Let_def e'_def q'_def L_def by (rule refl)
  finally have res: "dmul (Finite a x) d_1_05
             = (if 971 < e' \<or> (e' = 971 \<and> 2 ^ 53 \<le> q') then PosInf else Finite q' e')" .
  have "(2::nat) ^ (s - 1) \<le> 2 ^ 52" using s(3) by (intro power_increasing) simp_all
  then have "a * c \<le> q' * 2 ^ s + 2 ^ 52"
    using round_shift_bounds(2) [OF s(1), of M] unfolding qq M_def by linarith
  moreover have "a * 2 ^ 52 + 2 ^ 52 < a * c"
  proof -
    have "2 ^ 52 * (c - 2 ^ 52) \<le> a * (c - 2 ^ 52)" using assms(1) by (intro mult_right_mono) simp_all
    moreover have "(2::nat) ^ 52 < 2 ^ 52 * (c - 2 ^ 52)" by (simp add: c_def)
    ultimately have "2 ^ 52 < a * (c - 2 ^ 52)" by linarith
    moreover have "a * (c - 2 ^ 52) + a * 2 ^ 52 = a * c"
      using c52 by (simp add: distrib_left [symmetric])
    ultimately show ?thesis by linarith
  qed
  ultimately have "a * 2 ^ 52 < q' * 2 ^ s" by linarith
  also have "\<dots> = (q' * 2 ^ nat (e' - x)) * 2 ^ 52"
  proof -
    have "(2::nat) ^ s = 2 ^ nat (e' - x) * 2 ^ 52"
      unfolding power_add [symmetric] sp by (rule refl)
    then show ?thesis by (simp only: mult.assoc)
  qed
  finally have key: "a < q' * 2 ^ nat (e' - x)" by simp
  show "dless (Finite a x) (dmul (Finite a x) d_1_05)"
    unfolding res using dless_base [of x x e' a q'] xe key by simp
  have "M div 2 ^ s \<le> q'" unfolding qq by (rule round_shift_ge_div)
  moreover have "2 ^ 52 \<le> M div 2 ^ s"
  proof -
    have "0 < L" using L105 by simp
    then have "2 ^ (L - 1) \<le> M" using bit_length_bounds [of M] M104 by (simp add: L_def)
    moreover have "(2::nat) ^ (L - 1) = 2 ^ 52 * 2 ^ s"
    proof -
      have "L - 1 = 52 + s" using L105 by (simp add: s_def)
      then show ?thesis by (simp only: power_add)
    qed
    ultimately have "2 ^ 52 * 2 ^ s \<le> M" by simp
    then show ?thesis by (simp add: less_eq_div_iff_mult_less_eq)
  qed
  ultimately have q52: "2 ^ 52 \<le> q'" by linarith
  show "dmul (Finite a x) d_1_05 = Finite q e \<Longrightarrow> 2 ^ 52 \<le> q"
    using q52 unfolding res by (auto split: if_splits)
qed

lemma constants_nearest:
  "dval d_0_8 = Some v8 \<Longrightarrow> \<bar>v8 - 0.8\<bar> \<le> 1 / 2 ^ 54"
  "dval d_0_95 = Some v95 \<Longrightarrow> \<bar>v95 - 0.95\<bar> \<le> 1 / 2 ^ 54"
  "dval d_1_05 = Some v105 \<Longrightarrow> \<bar>v105 - 1.05\<bar> \<le> 1 / 2 ^ 53"
  "dval d_0_7 = Some v7 \<Longrightarrow> \<bar>v7 - 0.7\<bar> \<le> 1 / 2 ^ 54"
  "dval d_0_9 = Some v9 \<Longrightarrow> \<bar>v9 - 0.9\<bar> \<le> 1 / 2 ^ 54"
  "dval d_0_5 = Some v5 \<Longrightarrow> v5 = 0.5"
  "dval d_0_76 = Some v76 \<Longrightarrow> \<bar>v76 - 0.76\<bar> \<le> 1 / 2 ^ 54"
  "dval d_0_722 = Some v722 \<Longrightarrow> \<bar>v722 - 0.722\<bar> \<le> 1 / 2 ^ 54"
  by (auto simp: d_0_8_def d_0_95_def d_1_05_def d_0_7_def d_0_9_def d_0_5_def d_0_76_def
      d_0_722_def abs_if field_simps)

lemma update_fst:
  "fst (update p m) =
     (let sr = (case m ''success_rate'' of None \<Rightarrow> Finite 0 0 | Some v \<Rightarrow> v) in
      if dless sr d_0_7 then dmul (success_threshold p) d_0_95
      else if dless d_0_9 sr then dmul (success_threshold p) d_1_05
      else success_threshold p)"
  by (simp add: update_def Let_def)

lemma update_snd: "snd (update p m) = p\<lparr>success_threshold := fst (update p m)\<rparr>"
  by (simp add: update_def Let_def)

lemma rate_0_5_low: "dless d_0_5 d_0_7"
  by (simp add: d_0_5_def d_0_7_def)

lemma rate_0_95_high: "\<not> dless d_0_95 d_0_7" "dless d_0_9 d_0_95"
  by (simp_all add: d_0_95_def d_0_7_def d_0_9_def)

lemma tightened_Suc: "tightened (Suc n) = dmul (tightened n) d_0_95"
  by (simp add: tightened_def update_def metrics_with_rate_def rate_0_5_low)

lemma relaxed_Suc: "relaxed (Suc n) = dmul (relaxed n) d_1_05"
  by (simp add: relaxed_def update_def metrics_with_rate_def rate_0_95_high)

lemma tightened_0: "tightened 0 = d_0_8"
  by (simp add: tightened_def AdaptivePolicy_init_def)

lemma relaxed_0: "relaxed 0 = d_0_8"
  by (simp add: relaxed_def AdaptivePolicy_init_def)

lemma first_products:
  "dmul d_0_8 d_0_95 = d_0_76" "dmul d_0_76 d_0_95 = d_0_722"
  by (simp_all add: d_0_8_def d_0_95_def d_0_76_def d_0_722_def round_to_double_def
      round_shift_def bit_length.simps Let_def)

lemma rounding_examples:
  "dmul (Finite 10 (- 1074)) d_0_95 = Finite 9 (- 1074)"
  "dmul (Finite 11 (- 1074)) d_0_95 = Finite 10 (- 1074)"
  "dmul (Finite 1 (- 1074)) d_0_95 = Finite 1 (- 1074)"
  "dmul (Finite 4503599627370496 (- 1074)) d_0_95 = Finite 4278419646001971 (- 1074)"
  "dmul (Finite 4503599627370497 (- 1074)) d_0_95 = Finite 4278419646001972 (- 1074)"
  "dmul d_0_8 d_1_05 = Finite 7566047373982434 (- 53)"
  "dmul (Finite 3 (- 1074)) d_1_05 = Finite 3 (- 1074)"
  "dmul (Finite 5010420900022432 971) d_1_05 = Finite 5260941945023554 971"
  "dmul (Finite 8517715530038134 971) d_1_05 = Finite 8943601306540041 971"
  "dmul (Finite 8905212002983295 971) d_1_05 = PosInf"
  "dmul (Finite 9007199254740991 971) d_1_05 = PosInf"
  by (simp_all add: d_0_8_def d_0_95_def d_1_05_def round_to_double_def round_shift_def
      bit_length.simps Let_def)

lemma fixed_points:
  "dmul (Finite 9 (- 1074)) d_0_95 = Finite 9 (- 1074)"
  "dmul PosInf d_1_05 = PosInf"
  by (simp_all add: d_0_95_def d_1_05_def round_to_double_def round_shift_def
      bit_length.simps Let_def)

lemma round_shift_zero: "round_shift 0 s = 0"
  by (simp add: round_shift_def)

lemma round_to_double_canonical:
  assumes "round_to_double M E = Finite q e"
  shows "2 ^ 52 \<le> q \<or> e = - 1074 \<or> q = 0"
proof (cases "e = - 1074 \<or> M = 0")
  case True
  then show ?thesis
    using round_to_double_Finite(2) [OF assms] by (auto simp: round_shift_zero)
next
  case False
  define L where "L = bit_length M"
  have e: "e = max (E + int L - 53) (- 1074)"
    and q: "q = (if e \<le> E then M * 2 ^ nat (E - e) else round_shift M (nat (e - E)))"
    using round_to_double_Finite [OF assms] by (simp_all add: L_def)
  have M0: "0 < M" using False by simp
  have eL: "e = E + int L - 53" using e False by linarith
  have L0: "0 < L" using M0 by (simp add: L_def bit_length.simps [of M])
  have lo: "2 ^ (L - 1) \<le> M" using bit_length_bounds [OF M0] by (simp add: L_def)
  have "2 ^ 52 \<le> q"
  proof (cases "e \<le> E")
    case True
    then have L53: "L \<le> 53" using eL by linarith
    have n: "nat (E - e) = 53 - L" using eL L53 by linarith
    have "(2::nat) ^ 52 = 2 ^ (L - 1) * 2 ^ (53 - L)"
      unfolding power_add [symmetric] using L0 L53 by simp
    also have "\<dots> \<le> M * 2 ^ (53 - L)" using lo by simp
    finally show ?thesis using q True n by simp
  next
    case False
    define s where "s = nat (e - E)"
    have s: "s = L - 53" "53 < L" using False eL unfolding s_def by linarith+
    have "L - 1 = 52 + s" using s by simp
    then have "(2::nat) ^ (L - 1) = 2 ^ 52 * 2 ^ s" by (simp only: power_add)
    then have "2 ^ 52 * 2 ^ s \<le> M" using lo by simp
    then have "2 ^ 52 \<le> M div 2 ^ s" by (simp add: less_eq_div_iff_mult_less_eq)
    also have "\<dots> \<le> round_shift M s" by (rule round_shift_ge_div)
    finally show ?thesis using q False by (simp add: s_def)
  qed
  then show ?thesis by simp
qed

lemma well_formed_round: "well_formed (round_to_double M E)"
proof (cases "round_to_double M E")
  case (Finite q e)
  then show ?thesis
    using round_to_double_inv [OF Finite] round_to_double_canonical [OF Finite] by simp
qed simp_all

lemma well_formed_dmul: "well_formed (dmul x y)"
  by (cases x; cases y) (simp_all add: well_formed_round)

lemma well_formed_tightened: "well_formed (tightened n)"
  by (cases n) (simp_all add: tightened_0 d_0_8_def tightened_Suc well_formed_dmul)

lemma well_formed_relaxed: "well_formed (relaxed n)"
  by (cases n) (simp_all add: relaxed_0 d_0_8_def relaxed_Suc well_formed_dmul)

lemma tightened_decreases:
  assumes "tightened n = Finite a x" and "dless (Finite 9 (- 1074)) (tightened n)"
  shows "dless (tightened (Suc n)) (tightened n)"
proof -
  have wf: "a \<le> 2 ^ 53" "- 1074 \<le> x" "x \<le> 971" "2 ^ 52 \<le> a \<or> x = - 1074 \<or> a = 0"
    using well_formed_tightened [of n] assms(1) by simp_all
  have "9 * 2 ^ nat (- 1074 - (- 1074)) < a * 2 ^ nat (x - (- 1074))"
    using assms(2) dless_base [of "- 1074" "- 1074" x 9 a] wf(2) unfolding assms(1) by simp
  then have big: "9 < a * 2 ^ nat (x + 1074)" by simp
  have "10 \<le> a"
  proof -
    consider "2 ^ 52 \<le> a" | "x = - 1074" | "a = 0" using wf(4) by blast
    then show ?thesis
    proof cases
      case 1 then show ?thesis by simp
    next
      case 2 then show ?thesis using big by simp
    next
      case 3 then show ?thesis using big by simp
    qed
  qed
  then show ?thesis
    unfolding tightened_Suc assms(1) using dmul_d_0_95_decreases wf by simp
qed

lemma relaxed_normal:
  "relaxed n = PosInf \<or> (\<exists>a x. relaxed n = Finite a x \<and> 2 ^ 52 \<le> a \<and> a \<le> 2 ^ 53 \<and> - 1074 \<le> x)"
proof (induction n)
  case 0
  show ?case by (simp add: relaxed_0 d_0_8_def)
next
  case (Suc n)
  from Suc.IH show ?case
  proof
    assume "relaxed n = PosInf"
    then show ?thesis by (simp add: relaxed_Suc fixed_points)
  next
    assume "\<exists>a x. relaxed n = Finite a x \<and> 2 ^ 52 \<le> a \<and> a \<le> 2 ^ 53 \<and> - 1074 \<le> x"
    then obtain a x where r: "relaxed n = Finite a x" and ax: "2 ^ 52 \<le> a" "a \<le> 2 ^ 53" "- 1074 \<le> x"
      by blast
    show ?thesis
    proof (cases "relaxed (Suc n)")
      case (Finite q e)
      have "2 ^ 52 \<le> q"
        using dmul_d_1_05_increases(2) [OF ax, of q e] Finite by (simp add: relaxed_Suc r)
      moreover have "q \<le> 2 ^ 53 \<and> - 1074 \<le> e"
        using well_formed_relaxed [of "Suc n"] Finite by simp
      ultimately show ?thesis using Finite by simp
    next
      case PosInf
      then show ?thesis by simp
    next
      case NaN
      then have "dless (relaxed n) NaN"
        using dmul_d_1_05_increases(1) [OF ax] by (simp add: relaxed_Suc r)
      then show ?thesis by (simp add: r)
    qed
  qed
qed

lemma relaxed_increases:
  assumes "relaxed n \<noteq> PosInf"
  shows "dless (relaxed n) (relaxed (Suc n))"
proof -
  obtain a x where r: "relaxed n = Finite a x" and ax: "2 ^ 52 \<le> a" "a \<le> 2 ^ 53" "- 1074 \<le> x"
    using relaxed_normal [of n] assms by blast
  show ?thesis
    unfolding relaxed_Suc r by (rule dmul_d_1_05_increases(1) [OF ax])
qed

lemma dless_scaled:
  assumes "dless s t" "well_formed s" "well_formed t" "t \<noteq> PosInf"
  shows "scaled s < scaled t"
proof -
  obtain a x where s: "s = Finite a x" using assms(1) by (cases s) simp_all
  obtain b y where t: "t = Finite b y" using assms(1,4) s by (cases t) simp_all
  have "- 1074 \<le> x" "- 1074 \<le> y" using assms(2,3) s t by simp_all
  then show ?thesis
    using assms(1) dless_base [of "- 1074" x y a b] unfolding s t by simp
qed

lemma no_infinite_descent:
  fixes f :: "nat \<Rightarrow> nat"
  shows "\<not> (\<forall>n. f (Suc n) < f n)"
proof
  assume a: "\<forall>n. f (Suc n) < f n"
  have "f n + n \<le> f 0" for n
  proof (induction n)
    case 0 show ?case by simp
  next
    case (Suc n)
    then show ?case using a [rule_format, of n] by linarith
  qed
  from this [of "Suc (f 0)"] show False by simp
qed

lemma no_bounded_ascent:
  fixes f :: "nat \<Rightarrow> nat"
  assumes "\<And>n. f n \<le> B"
  shows "\<not> (\<forall>n. f n < f (Suc n))"
proof
  assume a: "\<forall>n. f n < f (Suc n)"
  have "n \<le> f n" for n
  proof (induction n)
    case 0 show ?case by simp
  next
    case (Suc n)
    then show ?case using a [rule_format, of n] by linarith
  qed
  from this [of "Suc B"] assms [of "Suc B"] show False by simp
qed

lemma tightened_not_forever:
  "\<not> (\<forall>n. dless (tightened (Suc n)) (tightened n))"
proof
  assume a: "\<forall>n. dless (tightened (Suc n)) (tightened n)"
  have fin: "tightened n \<noteq> PosInf" for n
  proof (cases n)
    case 0 then show ?thesis by (simp add: tightened_0 d_0_8_def)
  next
    case (Suc k)
    have "dless (tightened (Suc k)) (tightened k)" using a by simp
    then show ?thesis unfolding Suc by (cases "tightened (Suc k)") simp_all
  qed
  have "scaled (tightened (Suc n)) < scaled (tightened n)" for n
    using dless_scaled [OF a [rule_format, of n] well_formed_tightened well_formed_tightened fin] .
  then show False using no_infinite_descent [of "\<lambda>n. scaled (tightened n)"] by simp
qed

lemma relaxed_not_forever:
  "\<not> (\<forall>n. dless (relaxed n) (relaxed (Suc n)))"
proof
  assume a: "\<forall>n. dless (relaxed n) (relaxed (Suc n))"
  have fin: "relaxed n \<noteq> PosInf" for n
    using a [rule_format, of n] by (cases "relaxed n") simp_all
  have up: "scaled (relaxed n) < scaled (relaxed (Suc n))" for n
    using dless_scaled [OF a [rule_format, of n] well_formed_relaxed well_formed_relaxed fin] .
  have bound: "scaled (relaxed n) \<le> 2 ^ 53 * 2 ^ 2045" for n
  proof (cases "relaxed n")
    case (Finite b y)
    then have wf: "b \<le> 2 ^ 53" "- 1074 \<le> y" "y \<le> 971"
      using well_formed_relaxed [of n] by simp_all
    have "nat (y + 1074) \<le> 2045" using wf by simp
    then have "(2::nat) ^ nat (y + 1074) \<le> 2 ^ 2045" by (intro power_increasing) simp_all
    then show ?thesis unfolding Finite scaled.simps using wf(1) by (intro mult_mono) simp_all
  qed simp_all
  show False using no_bounded_ascent [of "\<lambda>n. scaled (relaxed n)", OF bound] up by simp
qed

lemma tightened_first: "tightened 1 = d_0_76" "tightened 2 = d_0_722"
proof -
  have a: "tightened (Suc 0) = d_0_76"
    by (simp only: tightened_Suc tightened_0 first_products)
  have b: "tightened (Suc (Suc 0)) = d_0_722"
    by (simp only: tightened_Suc tightened_0 first_products)
  show "tightened 1 = d_0_76" using a by simp
  show "tightened 2 = d_0_722" using b by (simp only: numeral_2_eq_2)
qed

text \<open>
  C6.  The claim: the threshold starts at 0.8, a call of \<open>update\<close> with success rate below
  0.7 multiplies it by 0.95, above 0.9 by 1.05, otherwise leaves it, and since nothing
  clamps it, repeated calls with success rate 0.5 give a strictly decreasing sequence
  with no lower bound, and with 0.95 a strictly increasing one with no upper bound.
  The products are rounded to doubles: the thresholds cannot strictly decrease at every
  call, nor strictly increase at every call; a call with success rate 0.5 leaves the
  threshold \<open>9 * 2\<^sup>-\<^sup>1\<^sup>0\<^sup>7\<^sup>4\<close> as it is, and a call with success rate 0.95 leaves
  \<open>+inf\<close> as it is.
\<close>

theorem threshold_drift_stops_counterexample:
  "\<not> (\<forall>n. dless (tightened (Suc n)) (tightened n))
   \<and> \<not> (\<forall>n. dless (relaxed n) (relaxed (Suc n)))
   \<and> \<not> dless (fst (update \<lparr>success_threshold = Finite 9 (- 1074)\<rparr> (metrics_with_rate d_0_5)))
           (Finite 9 (- 1074))
   \<and> \<not> dless PosInf (fst (update \<lparr>success_threshold = PosInf\<rparr> (metrics_with_rate d_0_95)))"
  using tightened_not_forever relaxed_not_forever
  by (simp add: update_fst metrics_with_rate_def rate_0_5_low rate_0_95_high fixed_points)

text \<open>
  C6, as amended.  The threshold starts at the double 0.8.  A call of \<open>update\<close> with
  success rate below 0.7 replaces the stored threshold by its rounded product with 0.95,
  above 0.9 by its rounded product with 1.05, and otherwise leaves it; the call returns
  the stored threshold, and nothing clamps it.  With success rate 0.5 the thresholds are
  0.8, 0.76, 0.722, ..., and a call strictly decreases the threshold as long as it
  exceeds \<open>9 * 2\<^sup>-\<^sup>1\<^sup>0\<^sup>7\<^sup>4\<close>, while it leaves \<open>9 * 2\<^sup>-\<^sup>1\<^sup>0\<^sup>7\<^sup>4\<close> itself unchanged, so
  the thresholds do not decrease forever.  With success rate 0.95 a call strictly
  increases the threshold as long as it is finite, and leaves \<open>+inf\<close> unchanged, so the
  thresholds do not increase forever.
\<close>

theorem adaptive_policy_double_drift:
  assumes "tightened n = Finite a x" and "dless (Finite 9 (- 1074)) (tightened n)"
    and "relaxed k \<noteq> PosInf"
  shows "success_threshold AdaptivePolicy_init = d_0_8
    \<and> fst (update p m) =
        (let sr = (case m ''success_rate'' of None \<Rightarrow> Finite 0 0 | Some v \<Rightarrow> v) in
         if dless sr d_0_7 then dmul (success_threshold p) d_0_95
         else if dless d_0_9 sr then dmul (success_threshold p) d_1_05
         else success_threshold p)
    \<and> snd (update p m) = p\<lparr>success_threshold := fst (update p m)\<rparr>
    \<and> tightened 0 = d_0_8 \<and> tightened 1 = d_0_76 \<and> tightened 2 = d_0_722
    \<and> dless (tightened (Suc n)) (tightened n)
    \<and> fst (update \<lparr>success_threshold = Finite 9 (- 1074)\<rparr> (metrics_with_rate d_0_5))
        = Finite 9 (- 1074)
    \<and> \<not> (\<forall>i. dless (tightened (Suc i)) (tightened i))
    \<and> dless (relaxed k) (relaxed (Suc k))
    \<and> fst (update \<lparr>success_threshold = PosInf\<rparr> (metrics_with_rate d_0_95)) = PosInf
    \<and> \<not> (\<forall>i. dless (relaxed i) (relaxed (Suc i)))"
proof -
  have fp: "fst (update \<lparr>success_threshold = Finite 9 (- 1074)\<rparr> (metrics_with_rate d_0_5))
        = Finite 9 (- 1074)"
    "fst (update \<lparr>success_threshold = PosInf\<rparr> (metrics_with_rate d_0_95)) = PosInf"
    by (simp_all add: update_fst metrics_with_rate_def rate_0_5_low rate_0_95_high fixed_points)
  have i: "success_threshold AdaptivePolicy_init = d_0_8"
    by (simp add: AdaptivePolicy_init_def)
  show ?thesis
    using i update_fst [of p m] update_snd [of p m] tightened_0 tightened_first
      tightened_decreases [OF assms(1,2)] relaxed_increases [OF assms(3)] fp
      tightened_not_forever relaxed_not_forever
    by blast
qed

theorem adaptive_policy_double_drift_witness:
  "tightened 0 = Finite 7205759403792794 (- 53)
   \<and> dless (Finite 9 (- 1074)) (tightened 0)
   \<and> relaxed 0 \<noteq> PosInf
   \<and> dless (tightened (Suc 0)) (tightened 0)
   \<and> dless (relaxed 0) (relaxed (Suc 0))
   \<and> tightened 2 = d_0_722"
proof -
  have h1: "tightened 0 = Finite 7205759403792794 (- 53)"
    by (simp add: tightened_0 d_0_8_def)
  have h2: "dless (Finite 9 (- 1074)) (tightened 0)"
    unfolding h1 by simp
  have h3: "relaxed 0 \<noteq> PosInf"
    by (simp add: relaxed_0 d_0_8_def)
  show ?thesis
    using h1 h2 h3 adaptive_policy_double_drift [OF h1 h2 h3]
    by blast
qed

section \<open>Properties of the observer\<close>

lemma py_str_member_not_value: "py_str (Member m) \<noteq> PaymentStatus_value m"
  by (cases m) simp_all

lemma sum_list_ones: "(\<Sum>s \<leftarrow> xs. (1::int)) = int (length xs)"
  by (induction xs) simp_all

lemma calculate_metrics_empty:
  "signals ob = [] \<Longrightarrow> calculate_metrics ob =
     Inr \<lparr>total_volume = 0, success_count = 0, failure_count = 0, success_rate = 0,
          failure_rate = 0, avg_latency = 0, retry_rate = 0\<rparr>"
  by (simp add: calculate_metrics_def)

lemma calculate_metrics_nonempty:
  assumes "signals ob \<noteq> []"
  shows "calculate_metrics ob =
     Inr \<lparr>total_volume = int (length (signals ob)),
          success_count = int (length (filter (\<lambda>s. status s = ''success'') (signals ob))),
          failure_count = int (length (filter (\<lambda>s. status s = ''failure'') (signals ob))),
          success_rate = real (length (filter (\<lambda>s. status s = ''success'') (signals ob)))
                           / real (length (signals ob)),
          failure_rate = real (length (filter (\<lambda>s. status s = ''failure'') (signals ob)))
                           / real (length (signals ob)),
          avg_latency = (\<Sum>s \<leftarrow> signals ob. latency_ms s) / real (length (signals ob)),
          retry_rate = 0\<rparr>"
  using assms
  by (simp add: calculate_metrics_def Let_def bind_e_def py_truediv_def sum_list_ones)

lemma calculate_metrics_returns: "\<exists>m. calculate_metrics ob = Inr m"
proof (cases "signals ob = []")
  case True
  then show ?thesis by (simp add: calculate_metrics_empty)
next
  case False
  then show ?thesis by (simp add: calculate_metrics_nonempty)
qed

lemma calculate_metrics_total_volume:
  assumes "calculate_metrics ob = Inr m"
  shows "total_volume m = int (length (signals ob))"
proof (cases "signals ob = []")
  case True
  then show ?thesis using assms by (auto simp: calculate_metrics_empty)
next
  case False
  then show ?thesis using assms calculate_metrics_nonempty [OF False] by auto
qed

lemma observe_all_signals: "signals (observe_all ob ss) = signals ob @ ss"
  by (induction ss arbitrary: ob) (simp_all add: observe_def)

lemma length_filter_split3:
  assumes "\<And>x. \<not> (P x \<and> Q x)"
  shows "length (filter P xs) + length (filter Q xs)
         + length (filter (\<lambda>x. \<not> P x \<and> \<not> Q x) xs) = length xs"
  using assms by (induction xs) auto

lemma length_filter_split2:
  assumes "\<And>x. \<not> (P x \<and> Q x)" and "\<forall>x \<in> set xs. P x \<or> Q x"
  shows "length (filter P xs) + length (filter Q xs) = length xs"
  using assms by (induction xs) auto

lemma success_not_failure: "\<not> (status s = ''success'' \<and> status s = ''failure'')"
  by auto

lemma length_three_filters:
  "length (filter (\<lambda>s. status s = ''success'') ss)
   + length (filter (\<lambda>s. status s = ''failure'') ss)
   + length (filter (\<lambda>s. status s \<noteq> ''success'' \<and> status s \<noteq> ''failure'') ss)
   = length ss"
  by (rule length_filter_split3) (rule success_not_failure)

lemma length_two_filters:
  "\<forall>s \<in> set ss. status s = ''success'' \<or> status s = ''failure'' \<Longrightarrow>
   length (filter (\<lambda>s. status s = ''success'') ss)
   + length (filter (\<lambda>s. status s = ''failure'') ss) = length ss"
  by (rule length_filter_split2) (rule success_not_failure)

lemma metrics_counts_partition:
  assumes "calculate_metrics ob = Inr m"
  shows "success_count m + failure_count m
         + int (length (filter (\<lambda>s. status s \<noteq> ''success'' \<and> status s \<noteq> ''failure'') (signals ob)))
         = int (length (signals ob))"
proof (cases "signals ob = []")
  case True
  then show ?thesis using assms by (auto simp: calculate_metrics_empty)
next
  case False
  have "m = \<lparr>total_volume = int (length (signals ob)),
          success_count = int (length (filter (\<lambda>s. status s = ''success'') (signals ob))),
          failure_count = int (length (filter (\<lambda>s. status s = ''failure'') (signals ob))),
          success_rate = real (length (filter (\<lambda>s. status s = ''success'') (signals ob)))
                           / real (length (signals ob)),
          failure_rate = real (length (filter (\<lambda>s. status s = ''failure'') (signals ob)))
                           / real (length (signals ob)),
          avg_latency = (\<Sum>s \<leftarrow> signals ob. latency_ms s) / real (length (signals ob)),
          retry_rate = 0\<rparr>"
    using assms calculate_metrics_nonempty [OF False] by simp
  then show ?thesis
    using length_three_filters [of "signals ob"] by simp
qed

lemma metrics_rates_sum_plain:
  assumes "calculate_metrics ob = Inr m" "signals ob \<noteq> []"
    and "\<forall>s \<in> set (signals ob). status s = ''success'' \<or> status s = ''failure''"
  shows "success_rate m + failure_rate m = 1"
proof -
  have m: "success_rate m = real (length (filter (\<lambda>s. status s = ''success'') (signals ob)))
                           / real (length (signals ob))"
      "failure_rate m = real (length (filter (\<lambda>s. status s = ''failure'') (signals ob)))
                           / real (length (signals ob))"
    using assms(1) calculate_metrics_nonempty [OF assms(2)] by auto
  have "real (length (filter (\<lambda>s. status s = ''success'') (signals ob)))
        + real (length (filter (\<lambda>s. status s = ''failure'') (signals ob)))
        = real (length (signals ob))"
    using length_two_filters [OF assms(3)] by (simp only: of_nat_add [symmetric])
  moreover have "real (length (signals ob)) \<noteq> 0" using assms(2) by simp
  ultimately show ?thesis
    unfolding m by (simp add: add_divide_distrib [symmetric])
qed

text \<open>
  C8.  With no retained signal \<open>calculate_metrics\<close> returns the snapshot whose seven
  fields are all zero, and for every retained history it returns a snapshot: no division
  by zero is performed.
\<close>

theorem metrics_zero_guard:
  "calculate_metrics (PaymentObserver_init mem) =
     Inr \<lparr>total_volume = 0, success_count = 0, failure_count = 0, success_rate = 0,
          failure_rate = 0, avg_latency = 0, retry_rate = 0\<rparr>
   \<and> calculate_metrics (ob\<lparr>signals := []\<rparr>) =
     Inr \<lparr>total_volume = 0, success_count = 0, failure_count = 0, success_rate = 0,
          failure_rate = 0, avg_latency = 0, retry_rate = 0\<rparr>
   \<and> calculate_metrics ob \<noteq> Inl ZeroDivisionError
   \<and> (\<exists>m. calculate_metrics ob = Inr m)"
  using calculate_metrics_returns [of ob]
  by (auto simp: calculate_metrics_empty PaymentObserver_init_def)

text \<open>
  C9.  The \<open>retry_rate\<close> of the snapshot is 0 for every retained history, also when the
  signals were built with nonzero retry counts.
\<close>

theorem retry_rate_always_zero:
  "\<exists>m. calculate_metrics ob = Inr m \<and> retry_rate m = 0"
proof (cases "signals ob = []")
  case True
  then show ?thesis by (simp add: calculate_metrics_empty)
next
  case False
  then show ?thesis by (simp add: calculate_metrics_nonempty)
qed

theorem retry_rate_always_zero_witness:
  "\<exists>m. calculate_metrics
     (observe_all (PaymentObserver_init AgentMemory_init)
        [PaymentSignal_init ''t1'' 25 ''USD'' (Plain ''failure'') 340 (Some ''E004_TIMEOUT'')
           (FloatTime 0) None None None [(''retry_count'', PInt 3)],
         PaymentSignal_init ''t2'' 30 ''USD'' (Plain ''success'') 210 None
           (FloatTime 1) None None None [(''retry_count'', PInt 1)]]) = Inr m
     \<and> retry_rate m = 0 \<and> total_volume m = 2"
proof -
  let ?ob = "observe_all (PaymentObserver_init AgentMemory_init)
        [PaymentSignal_init ''t1'' 25 ''USD'' (Plain ''failure'') 340 (Some ''E004_TIMEOUT'')
           (FloatTime 0) None None None [(''retry_count'', PInt 3)],
         PaymentSignal_init ''t2'' 30 ''USD'' (Plain ''success'') 210 None
           (FloatTime 1) None None None [(''retry_count'', PInt 1)]]"
  obtain m where m: "calculate_metrics ?ob = Inr m" "retry_rate m = 0"
    using retry_rate_always_zero [of ?ob] by blast
  have "length (signals ?ob) = 2"
    by (simp add: observe_def PaymentObserver_init_def)
  then have "total_volume m = 2"
    using calculate_metrics_total_volume [OF m(1)] by simp
  with m show ?thesis by blast
qed

text \<open>
  C10.  The constructor accepts any extra keyword arguments and drops them: the signal it
  builds does not depend on them, its instance dictionary has exactly the ten named
  attributes, and a keyword that is not one of the ten names is not an attribute of the
  signal.
\<close>

theorem init_discards_kwargs:
  assumes "k \<notin> named_attributes"
  shows "PaymentSignal_init tid amt cur st lat ec ts pm proc ib kwargs
         = PaymentSignal_init tid amt cur st lat ec ts pm proc ib []
    \<and> PaymentSignal_init_dict tid amt cur st lat ec ts pm proc ib kwargs
         = PaymentSignal_init_dict tid amt cur st lat ec ts pm proc ib []
    \<and> dom (PaymentSignal_init_dict tid amt cur st lat ec ts pm proc ib kwargs) = named_attributes
    \<and> PaymentSignal_init_dict tid amt cur st lat ec ts pm proc ib kwargs k = None
    \<and> vars_of (PaymentSignal_init tid amt cur st lat ec ts pm proc ib kwargs)
         = PaymentSignal_init_dict tid amt cur st lat ec ts pm proc ib kwargs"
proof -
  have d: "dom (PaymentSignal_init_dict tid amt cur st lat ec ts pm proc ib kwargs) = named_attributes"
    by (auto simp: PaymentSignal_init_dict_def named_attributes_def)
  have n: "PaymentSignal_init_dict tid amt cur st lat ec ts pm proc ib kwargs k = None"
    using assms d by blast
  have v: "vars_of (PaymentSignal_init tid amt cur st lat ec ts pm proc ib kwargs)
         = PaymentSignal_init_dict tid amt cur st lat ec ts pm proc ib kwargs"
    by (simp add: vars_of_def PaymentSignal_init_def PaymentSignal_init_dict_def)
  show ?thesis
    using d n v by (simp add: PaymentSignal_init_def PaymentSignal_init_dict_def)
qed

theorem init_discards_kwargs_witness:
  "''retry_count'' \<notin> named_attributes
   \<and> PaymentSignal_init_dict ''t1'' 25 ''USD'' (Plain ''failure'') 340 None (FloatTime 0)
       None None None [(''retry_count'', PInt 3)] ''retry_count'' = None
   \<and> PaymentSignal_init ''t1'' 25 ''USD'' (Plain ''failure'') 340 None (FloatTime 0)
       None None None [(''retry_count'', PInt 3)]
     = PaymentSignal_init ''t1'' 25 ''USD'' (Plain ''failure'') 340 None (FloatTime 0)
       None None None []"
proof -
  have h: "''retry_count'' \<notin> named_attributes"
    by (simp add: named_attributes_def)
  show ?thesis
    using h init_discards_kwargs [OF h, of "''t1''" 25 "''USD''" "Plain ''failure''" 340 None
        "FloatTime 0" None None None "[(''retry_count'', PInt 3)]"]
    by blast
qed

section \<open>Properties of the simulator\<close>

lemma random_random_eq:
  "random_random g = (real (fst (next_raw g) mod 2 ^ 53) / 2 ^ 53, snd (next_raw g))"
  by (simp add: random_random_def split: prod.splits)

lemma random_randint_eq:
  "random_randint a b g = (a + int (fst (next_raw g) mod nat (b - a + 1)), snd (next_raw g))"
  by (simp add: random_randint_def split: prod.splits)

lemma random_uniform_eq:
  "random_uniform a b g = (a + (b - a) * fst (random_random g), snd (random_random g))"
  by (simp add: random_uniform_def split: prod.splits)

lemma random_choice_nonempty:
  "xs \<noteq> [] \<Longrightarrow>
   random_choice xs g = Inr (xs ! (fst (next_raw g) mod length xs), snd (next_raw g))"
  by (simp add: random_choice_def split: prod.splits)

lemma random_random_range: "0 \<le> fst (random_random g) \<and> fst (random_random g) < 1"
  by (simp add: random_random_eq)

lemma determine_outcome_eq:
  "determine_outcome sim d g =
     (if fst (random_random g) < success_prob d
      then Inr (SUCCESS, None, snd (random_random g))
      else Inl (AttributeError ''FAILED''))"
  by (simp add: determine_outcome_def bind_e_def PaymentStatus_getattr_def split: prod.splits)

lemma apply_scenarios_append:
  "apply_scenarios c issuer pm (xs @ ys) dg
   = apply_scenarios c issuer pm ys (apply_scenarios c issuer pm xs dg)"
  by (induction xs arbitrary: dg) simp_all

lemma generate_payment_counter:
  "transaction_counter (snd (generate_payment sim now g)) = transaction_counter sim + 1"
  by (simp add: generate_payment_def Let_def)

lemma generate_payment_outcomes:
  assumes "payment_methods sim \<noteq> []" "issuer_banks sim \<noteq> []" "processors sim \<noteq> []"
    "currencies sim \<noteq> []" "merchant_categories sim \<noteq> []"
  shows "fst (generate_payment sim now g) = Inl (AttributeError ''FAILED'')
       \<or> (\<exists>s g'. fst (generate_payment sim now g) = Inr (s, g')
             \<and> status s = ''PaymentStatus.SUCCESS'' \<and> error_code s = None)"
  using assms
  by (simp add: generate_payment_def Let_def random_choice_nonempty bind_e_def
      determine_outcome_eq random_randint_eq random_uniform_eq PaymentSignal_init_def
      split: prod.splits)

lemma format_06d_1: "format_06d 1 = ''000001''"
  by (simp add: format_06d_def zfill_def numeral_eq_Suc)

lemma generate_payment_first_signal:
  "fst (generate_payment PaymentSimulator_init now []) =
     Inr (\<lparr>transaction_id = ''txn_000001'', amount = 10, currency = ''USD'',
           status = ''PaymentStatus.SUCCESS'', latency_ms = 100, error_code = None,
           timestamp = DateTime now, payment_method = Some ''visa'',
           processor = Some ''stripe'', issuer_bank = Some ''chase''\<rparr>, [])"
  by (simp add: generate_payment_def PaymentSimulator_init_def random_choice_def
      random_randint_def random_random_def random_uniform_def determine_outcome_def bind_e_def
      PaymentStatus_getattr_def PaymentSignal_init_def py_round2_def round_half_even_def
      format_06d_1)

lemma realistic_scenarios_chase_visa:
  assumes "80 \<le> c" "c < 100"
  shows "success_prob (fst (apply_scenarios c ''chase'' ''visa''
            (degradation_scenarios (setup_realistic_scenarios PaymentSimulator_init))
            (\<lparr>success_prob = 0.85, base_latency = lat0, retry_count = 0, forced_error = None\<rparr>, g)))
         = 0.85 * ((1 - 0.6) * (1 - 0.4))"
  using assms
  by (simp add: setup_realistic_scenarios_def add_degradation_scenario_def
      PaymentSimulator_init_def apply_scenario_def)

lemma registration_order_matters:
  "success_prob (fst (apply_scenarios 5 ''chase'' ''visa''
      [\<lparr>scn_type = ''error_clustering'', scn_affected = ''E005_FRAUD_SUSPECTED'', scn_start = 0,
         scn_end = 10, scn_severity = 1\<rparr>,
       \<lparr>scn_type = ''method_fatigue'', scn_affected = ''visa'', scn_start = 0,
         scn_end = 10, scn_severity = 0.4\<rparr>]
      (\<lparr>success_prob = 0.85, base_latency = 500, retry_count = 0, forced_error = None\<rparr>, [0])))
    = 0.06
   \<and> success_prob (fst (apply_scenarios 5 ''chase'' ''visa''
      [\<lparr>scn_type = ''method_fatigue'', scn_affected = ''visa'', scn_start = 0,
         scn_end = 10, scn_severity = 0.4\<rparr>,
       \<lparr>scn_type = ''error_clustering'', scn_affected = ''E005_FRAUD_SUSPECTED'', scn_start = 0,
         scn_end = 10, scn_severity = 1\<rparr>]
      (\<lparr>success_prob = 0.85, base_latency = 500, retry_count = 0, forced_error = None\<rparr>, [0])))
    = 0.1"
  by (simp add: apply_scenario_def random_random_def)

text \<open>
  C1.  The claim: \<open>generate_payment\<close> returns a signal for every simulator state and
  every outcome of the draws, in the success branch and in the failure branch.  The
  failure branch reads \<open>PaymentStatus.FAILED\<close>, which is not a member of the enumeration
  (its members are SUCCESS, FAILURE and PENDING), so it raises AttributeError.  On the
  freshly built simulator, with an outcome draw of \<open>1 - 2\<^sup>-\<^sup>5\<^sup>3\<close>, above the
  base probability 0.85, the call raises.  (\<open>generate_payment_outcomes\<close>: every call
  either raises this error or returns a SUCCESS signal.)
\<close>

theorem generate_payment_failure_branch_raises:
  "fst (generate_payment PaymentSimulator_init now [0, 0, 0, 0, 2 ^ 53 - 1])
     = Inl (AttributeError ''FAILED'')
   \<and> fst (random_random [2 ^ 53 - 1]) \<ge> 0.85"
  by (simp add: generate_payment_def PaymentSimulator_init_def random_choice_def
      random_randint_def random_random_def determine_outcome_def bind_e_def
      PaymentStatus_getattr_def)

text \<open>
  C5.  The claim: registering a scenario with severity outside \<open>[0, 1]\<close> or with a
  negative duration fails with InvalidConfiguration and does not add the scenario.
  \<open>add_degradation_scenario\<close> has no check and no error: a latency spike with severity
  1.5 and duration -3 is registered, with its end before its start.
\<close>

theorem add_degradation_scenario_unvalidated_counterexample:
  "\<not> spec_valid_configuration (- 3) 1.5
   \<and> degradation_scenarios
       (add_degradation_scenario PaymentSimulator_init ''latency_spike'' ''global'' 10 (- 3) 1.5)
     = [\<lparr>scn_type = ''latency_spike'', scn_affected = ''global'', scn_start = 10,
         scn_end = 7, scn_severity = 1.5\<rparr>]"
  by (simp add: spec_valid_configuration_def add_degradation_scenario_def
      PaymentSimulator_init_def)

text \<open>
  C5, as amended.  \<open>add_degradation_scenario\<close> validates nothing and cannot fail: for
  every severity and duration it appends the scenario, with end = start + duration, after
  the scenarios already registered, and leaves the counter as it was.
\<close>

theorem add_degradation_scenario_appends:
  "degradation_scenarios
     (add_degradation_scenario sim scenario_type affected start_after duration severity)
   = degradation_scenarios sim @
       [\<lparr>scn_type = scenario_type, scn_affected = affected, scn_start = start_after,
         scn_end = start_after + duration, scn_severity = severity\<rparr>]
   \<and> length (degradation_scenarios
        (add_degradation_scenario sim scenario_type affected start_after duration severity))
     = Suc (length (degradation_scenarios sim))
   \<and> transaction_counter
        (add_degradation_scenario sim scenario_type affected start_after duration severity)
     = transaction_counter sim"
  by (simp add: add_degradation_scenario_def)

text \<open>
  C7.  Scenarios are applied in registration order (the loop over a list \<open>xs @ ys\<close> is
  the loop over \<open>ys\<close> run on the result of the loop over \<open>xs\<close>) and compose
  multiplicatively: for a signal drawn with issuer chase and payment method visa whose
  counter lies inside both the chase issuer-degradation window (severity 0.6) and the
  visa method-fatigue window (severity 0.4), in either registration order, the success
  probability after the loop is \<open>0.85 * ((1 - 0.6) * (1 - 0.4))\<close>, and it is the value
  the outcome draw is compared with: \<open>generate_payment\<close> returns a signal exactly when
  the outcome draw is below it.
\<close>

theorem scenarios_compound_in_registration_order:
  assumes "s1 \<le> c" "c \<le> s1 + dur1" "s2 \<le> c" "c \<le> s2 + dur2"
  shows "success_prob (fst (apply_scenarios c ''chase'' ''visa''
            [\<lparr>scn_type = ''issuer_degradation'', scn_affected = ''chase'', scn_start = s1,
               scn_end = s1 + dur1, scn_severity = 0.6\<rparr>,
             \<lparr>scn_type = ''method_fatigue'', scn_affected = ''visa'', scn_start = s2,
               scn_end = s2 + dur2, scn_severity = 0.4\<rparr>]
            (\<lparr>success_prob = 0.85, base_latency = lat0, retry_count = 0, forced_error = None\<rparr>, g)))
         = 0.85 * ((1 - 0.6) * (1 - 0.4))
    \<and> success_prob (fst (apply_scenarios c ''chase'' ''visa''
            [\<lparr>scn_type = ''method_fatigue'', scn_affected = ''visa'', scn_start = s2,
               scn_end = s2 + dur2, scn_severity = 0.4\<rparr>,
             \<lparr>scn_type = ''issuer_degradation'', scn_affected = ''chase'', scn_start = s1,
               scn_end = s1 + dur1, scn_severity = 0.6\<rparr>]
            (\<lparr>success_prob = 0.85, base_latency = lat0, retry_count = 0, forced_error = None\<rparr>, g)))
         = 0.85 * ((1 - 0.6) * (1 - 0.4))
    \<and> apply_scenarios c issuer pm (xs @ ys) dg
         = apply_scenarios c issuer pm ys (apply_scenarios c issuer pm xs dg)
    \<and> ((\<exists>sg. fst (generate_payment (chase_visa_simulator c s1 dur1 s2 dur2) now
                    (0 # 0 # pr # l # u # rest)) = Inr sg)
         \<longleftrightarrow> real (u mod 2 ^ 53) / 2 ^ 53 < 0.85 * ((1 - 0.6) * (1 - 0.4)))"
proof -
  have a: "success_prob (fst (apply_scenarios c ''chase'' ''visa''
            [\<lparr>scn_type = ''issuer_degradation'', scn_affected = ''chase'', scn_start = s1,
               scn_end = s1 + dur1, scn_severity = 0.6\<rparr>,
             \<lparr>scn_type = ''method_fatigue'', scn_affected = ''visa'', scn_start = s2,
               scn_end = s2 + dur2, scn_severity = 0.4\<rparr>]
            (\<lparr>success_prob = 0.85, base_latency = lat0, retry_count = 0, forced_error = None\<rparr>, g)))
         = 0.85 * ((1 - 0.6) * (1 - 0.4))"
    using assms by (simp add: apply_scenario_def)
  have b: "success_prob (fst (apply_scenarios c ''chase'' ''visa''
            [\<lparr>scn_type = ''method_fatigue'', scn_affected = ''visa'', scn_start = s2,
               scn_end = s2 + dur2, scn_severity = 0.4\<rparr>,
             \<lparr>scn_type = ''issuer_degradation'', scn_affected = ''chase'', scn_start = s1,
               scn_end = s1 + dur1, scn_severity = 0.6\<rparr>]
            (\<lparr>success_prob = 0.85, base_latency = lat0, retry_count = 0, forced_error = None\<rparr>, g)))
         = 0.85 * ((1 - 0.6) * (1 - 0.4))"
    using assms by (simp add: apply_scenario_def)
  have d: "(\<exists>sg. fst (generate_payment (chase_visa_simulator c s1 dur1 s2 dur2) now
                    (0 # 0 # pr # l # u # rest)) = Inr sg)
         \<longleftrightarrow> real (u mod 2 ^ 53) / 2 ^ 53 < 0.85 * ((1 - 0.6) * (1 - 0.4))"
    using assms
    by (simp add: generate_payment_def chase_visa_simulator_def add_degradation_scenario_def
        PaymentSimulator_init_def Let_def random_choice_nonempty bind_e_def
        determine_outcome_eq random_randint_eq random_uniform_eq random_random_eq
        apply_scenario_def)
  show ?thesis
    using a b d apply_scenarios_append [of c issuer pm xs ys dg] by blast
qed

theorem scenarios_compound_in_registration_order_witness:
  "(50::int) \<le> 100 \<and> (100::int) \<le> 50 + 100 \<and> (80::int) \<le> 100 \<and> (100::int) \<le> 80 + 80
   \<and> success_prob (fst (apply_scenarios 100 ''chase'' ''visa''
            [\<lparr>scn_type = ''issuer_degradation'', scn_affected = ''chase'', scn_start = 50,
               scn_end = 50 + 100, scn_severity = 0.6\<rparr>,
             \<lparr>scn_type = ''method_fatigue'', scn_affected = ''visa'', scn_start = 80,
               scn_end = 80 + 80, scn_severity = 0.4\<rparr>]
            (\<lparr>success_prob = 0.85, base_latency = 500, retry_count = 0, forced_error = None\<rparr>, [])))
     = 0.204
   \<and> (\<exists>sg. fst (generate_payment (chase_visa_simulator 100 50 100 80 80) 0
                [0, 0, 0, 0, 0]) = Inr sg)"
proof -
  have h: "(50::int) \<le> 100" "(100::int) \<le> 50 + 100" "(80::int) \<le> 100" "(100::int) \<le> 80 + 80"
    by simp_all
  show ?thesis
    using scenarios_compound_in_registration_order [OF h, of 500 "[]" "''chase''" "''visa''" "[]" "[]"
        "(\<lparr>success_prob = 0.85, base_latency = 500, retry_count = 0, forced_error = None\<rparr>, [])"
        0 0 0 0 "[]"]
    by (simp del: apply_scenarios.simps)
qed

text \<open>
  C4.  The claim: for every history of \<open>n\<close> signals with status SUCCESS, FAILURE or
  PENDING, \<open>success_count + failure_count + (count of PENDING) = n\<close>, and the two rates
  add up to 1 when \<open>n > 0\<close> and no signal is PENDING.  The constructor stores
  \<open>str(status)\<close>; for a member of the enumeration, which is what the default value and
  the simulator pass, that is the text \<open>PaymentStatus.SUCCESS\<close>, and
  \<open>calculate_metrics\<close> compares with \<open>success\<close>.  One signal built with the default
  status, and likewise the first signal the simulator generates: it is not PENDING, and
  the metrics count no success and no failure, with both rates 0.  (For histories whose stored status strings are \<open>success\<close> and \<open>failure\<close>
  the identities hold: \<open>metrics_counts_partition\<close>, \<open>metrics_rates_sum_plain\<close>.)
\<close>

theorem member_status_signal_not_counted:
  "calculate_metrics
     (observe (PaymentObserver_init AgentMemory_init)
        (PaymentSignal_init ''t1'' 0 ''USD'' (Member SUCCESS) 0 None (FloatTime 0)
           None None None []))
   = Inr \<lparr>total_volume = 1, success_count = 0, failure_count = 0, success_rate = 0,
          failure_rate = 0, avg_latency = 0, retry_rate = 0\<rparr>
   \<and> pending_count
       (signals (observe (PaymentObserver_init AgentMemory_init)
        (PaymentSignal_init ''t1'' 0 ''USD'' (Member SUCCESS) 0 None (FloatTime 0)
           None None None []))) = 0
   \<and> (\<exists>s g. fst (generate_payment PaymentSimulator_init now []) = Inr (s, g)
        \<and> pending_count (signals (observe (PaymentObserver_init AgentMemory_init) s)) = 0
        \<and> calculate_metrics (observe (PaymentObserver_init AgentMemory_init) s)
          = Inr \<lparr>total_volume = 1, success_count = 0, failure_count = 0, success_rate = 0,
                 failure_rate = 0, avg_latency = 100, retry_rate = 0\<rparr>)"
proof -
  have a: "calculate_metrics
     (observe (PaymentObserver_init AgentMemory_init)
        (PaymentSignal_init ''t1'' 0 ''USD'' (Member SUCCESS) 0 None (FloatTime 0)
           None None None []))
   = Inr \<lparr>total_volume = 1, success_count = 0, failure_count = 0, success_rate = 0,
          failure_rate = 0, avg_latency = 0, retry_rate = 0\<rparr>"
    by (simp add: calculate_metrics_def observe_def PaymentObserver_init_def
      PaymentSignal_init_def bind_e_def py_truediv_def)
  have b: "pending_count
       (signals (observe (PaymentObserver_init AgentMemory_init)
        (PaymentSignal_init ''t1'' 0 ''USD'' (Member SUCCESS) 0 None (FloatTime 0)
           None None None []))) = 0"
    by (simp add: observe_def PaymentObserver_init_def PaymentSignal_init_def pending_count_def)
  have c: "\<exists>s g. fst (generate_payment PaymentSimulator_init now []) = Inr (s, g)
        \<and> pending_count (signals (observe (PaymentObserver_init AgentMemory_init) s)) = 0
        \<and> calculate_metrics (observe (PaymentObserver_init AgentMemory_init) s)
          = Inr \<lparr>total_volume = 1, success_count = 0, failure_count = 0, success_rate = 0,
                 failure_rate = 0, avg_latency = 100, retry_rate = 0\<rparr>"
    unfolding generate_payment_first_signal
    by (simp add: calculate_metrics_def observe_def PaymentObserver_init_def
      bind_e_def py_truediv_def pending_count_def)
  show ?thesis using a b c by blast
qed

end
